theory Spec2Isabelle
  imports Main
begin

section \<open>Python values, exceptions and strings\<close>

text \<open>
  Values stored in the dynamically typed dictionaries of the program (file metadata,
  telemetry, template arguments, command line arguments). \<open>truthy\<close> is Python's truth
  test, used by \<^verbatim>\<open>not file.meta.get("description")\<close> and by \<^verbatim>\<open>or\<close> on the
  arguments of the session.
\<close>

datatype pyval =
  PNone | PBool bool | PInt int | PStr string | PList "pyval list" | PDict "(string \<times> pyval) list"

fun truthy :: "pyval \<Rightarrow> bool" where
  "truthy PNone = False"
| "truthy (PBool b) = b"
| "truthy (PInt i) = (i \<noteq> 0)"
| "truthy (PStr s) = (s \<noteq> [])"
| "truthy (PList xs) = (xs \<noteq> [])"
| "truthy (PDict kvs) = (kvs \<noteq> [])"

definition opt_str :: "string option \<Rightarrow> pyval" where
  "opt_str x = (case x of None \<Rightarrow> PNone | Some v \<Rightarrow> PStr v)"

text \<open>
  The exceptions the three modules distinguish. \<open>BaseException\<close> stands for the Python
  exceptions that are neither \<open>KeyboardInterrupt\<close> nor derived from \<open>Exception\<close>
  (\<open>SystemExit\<close>, \<open>asyncio.CancelledError\<close>): no handler of \<open>run_project\<close> catches them.
\<close>

datatype exc =
    KeyboardInterrupt
  | UIClosedError
  | APIError string
  | KeyError string
  | OtherException string
  | BaseException string

text \<open>
  Strings are the UTF-8 bytes of Python's strings. \<open>join\<close> is \<^verbatim>\<open>sep.join(xs)\<close>,
  \<open>basename\<close> is \<^verbatim>\<open>os.path.basename\<close> (what follows the last slash), \<open>py_str\<close> is
  how an f-string renders a value that may be \<^verbatim>\<open>None\<close>. Python's own
  \<^verbatim>\<open>str.lower\<close> (Unicode lowercasing) is not defined here: it is the parameter
  \<open>str_lower\<close> of the outside world below.
\<close>

definition py_str :: "string option \<Rightarrow> string" where
  "py_str x = (case x of None \<Rightarrow> ''None'' | Some s \<Rightarrow> s)"

fun join :: "string \<Rightarrow> string list \<Rightarrow> string" where
  "join sep [] = []"
| "join sep [x] = x"
| "join sep (x # y # ys) = x @ sep @ join sep (y # ys)"

definition basename :: "string \<Rightarrow> string" where
  "basename p = rev (takeWhile (\<lambda>c. c \<noteq> CHR ''/'') (rev p))"

section \<open>Data model\<close>

subsection \<open>Constants and records of core/agents/architect.py\<close>

definition ARCHITECTURE_STEP_NAME :: string where
  "ARCHITECTURE_STEP_NAME = ''Project architecture''"

definition WARN_SYSTEM_DEPS :: "string list" where
  "WARN_SYSTEM_DEPS = [''docker'', ''kubernetes'', ''microservices'']"

definition WARN_FRAMEWORKS :: "string list" where
  "WARN_FRAMEWORKS = [''next.js'', ''vue'', ''vue.js'', ''svelte'', ''angular'']"

definition WARN_FRAMEWORKS_URL :: string where
  "WARN_FRAMEWORKS_URL =
     ''https://github.com/Pythagora-io/gpt-pilot/wiki/Using-GPT-Pilot-with-frontend-frameworks''"

text \<open>
  The pydantic models the answers of the model are parsed into. Every field of the three
  architecture models is declared with the default \<^verbatim>\<open>None\<close>, so a parsed answer may
  lack any of them, a name or a whole list included.
\<close>

record SystemDependency =
  name :: "string option"
  description :: "string option"
  test :: "string option"
  required_locally :: "bool option"

record PackageDependency =
  pkg_name :: "string option"
  pkg_description :: "string option"

record Architecture =
  architecture :: "string option"
  system_dependencies :: "SystemDependency list option"
  package_dependencies :: "PackageDependency list option"
  template :: "string option"

record FileDescription =
  summary :: string
  references :: "string list"

text \<open>
  A system dependency as the specification stores it: the dictionary of the four dumped
  fields, whose values may be \<^verbatim>\<open>None\<close>, to which the dependency check adds the key
  \<^verbatim>\<open>installed\<close> (\<open>dep_installed = None\<close>: the key is absent).
\<close>

record dep_dict =
  dep_name :: "string option"
  dep_description :: "string option"
  dep_test :: "string option"
  dep_required_locally :: "bool option"
  dep_installed :: "bool option"

definition model_dump :: "SystemDependency \<Rightarrow> dep_dict" where
  "model_dump d =
     \<lparr>dep_name = name d, dep_description = description d, dep_test = test d,
      dep_required_locally = required_locally d, dep_installed = None\<rparr>"

record Specification =
  spec_description :: string
  spec_architecture :: "string option"
  spec_system_dependencies :: "dep_dict list"
  spec_package_dependencies :: "PackageDependency list"
  spec_template :: "string option"
  example_project :: "string option"

text \<open>
  The value of \<^verbatim>\<open>EXAMPLE_PROJECTS[name]["architecture"]\<close>; the table itself
  (core/templates/example_project.py) is a parameter of the step.
\<close>

record example_architecture =
  ex_architecture :: "string option"
  ex_system_dependencies :: "dep_dict list"
  ex_package_dependencies :: "PackageDependency list"
  ex_template :: "string option"

subsection \<open>Snapshots and agent responses\<close>

record File =
  path :: string
  content :: string
  meta :: "string \<rightharpoonup> pyval"

text \<open>
  An iteration, a task and a step are dictionaries. A key that the code reads with
  \<^verbatim>\<open>get\<close> or subscripts is \<open>None\<close> here when the dictionary lacks it; the subscript then
  raises \<^verbatim>\<open>KeyError\<close>.
\<close>

record Iteration =
  user_feedback :: "string option"
  user_feedback_qa :: "string option"
  iteration_description :: "string option"

record Task =
  instructions :: "string option"

record ProjectState =
  files :: "File list"
  state_specification :: Specification
  current_task :: "Task option"
  iterations :: "Iteration list"
  action :: "string option"

text \<open>
  The State Manager's pair of snapshots: \<open>current_state\<close> is the committed one,
  \<open>next_state\<close> the working copy that the running agent mutates.
\<close>

record StateManager =
  project_id :: string
  current_state :: ProjectState
  next_state :: ProjectState

text \<open>
  Modelled from the spec: the class \<^verbatim>\<open>AgentResponse\<close> (core/agents/response.py) is not
  part of the three modules. It is a tagged union whose payload is tag-specific: a code
  review request carries path, instructions, old content, new content and the attempt
  counter; the rework tag carries the attempt counter, the feedback text, the previously
  proposed and the previously approved content.
\<close>

datatype AgentResponse =
    Done
  | DescribeFiles
  | CodeReview string string string string int
  | CodeReviewFeedback int string string string
  | OtherResponse string

record Step =
  save_file_path :: "string option"

record Namespace =
  arg_project :: pyval
  arg_branch :: pyval
  arg_step :: pyval

subsection \<open>The trace of external calls\<close>

text \<open>
  A conversation sent to the model: rendered templates with their arguments, assistant
  turns, and the schema required from the answer.
\<close>

datatype msg =
    Template string "(string \<times> pyval) list"
  | Assistant string
  | RequireSchema string

type_synonym convo = "msg list"

datatype llm_answer =
    AnsArchitecture Architecture
  | AnsFileDescription FileDescription
  | AnsText string

text \<open>
  Every call that leaves the three modules is recorded, in order, in a trace; a command
  is recorded with its exit status and a model request with what came back. The answers
  of the outside world are functions of the trace so far and of the request, so that two
  identical requests may be answered differently.
\<close>

datatype event =
    SendMessage string
  | AskQuestion string
  | SendProjectStage string
  | RunCommand "string option" int
  | LLMRequest convo "exc + llm_answer"
  | APICheck string
  | CreateProject string
  | LoadProject
  | OrchestratorRun
  | Rollback
  | TelemetrySet string pyval
  | RecordCrash exc

record UserInput =
  input_text :: string
  cancelled :: bool

text \<open>
  The outside world: Python's \<^verbatim>\<open>str.lower\<close>, the operator answering a question (or
  closing the UI, or interrupting), the exit status of an external command (the command
  is the value of the key \<^verbatim>\<open>test\<close>, which may be \<^verbatim>\<open>None\<close>), the parsed answers
  of the model, the reachability check of each configured provider, and the code of this
  repository that the three modules call but do not contain (the orchestrator, the project
  loader, \<^verbatim>\<open>StateManager.create_project\<close>, the crash recorder and two constant tables).
\<close>

record env =
  str_lower :: "string \<Rightarrow> string"
  ui_ask :: "event list \<Rightarrow> string \<Rightarrow> exc + UserInput"
  proc_run :: "event list \<Rightarrow> string option \<Rightarrow> int"
  llm_architecture :: "event list \<Rightarrow> convo \<Rightarrow> exc + Architecture"
  llm_describe :: "event list \<Rightarrow> convo \<Rightarrow> exc + FileDescription"
  llm_code :: "event list \<Rightarrow> convo \<Rightarrow> exc + string"
  all_llms :: "string list"
  api_check :: "event list \<Rightarrow> string \<Rightarrow> exc + bool"
  orca_run :: "StateManager \<Rightarrow> event list \<Rightarrow> (exc + bool) \<times> StateManager \<times> event list"
  load_project :: "event list \<Rightarrow> StateManager \<Rightarrow> Namespace \<Rightarrow> exc + bool \<times> StateManager"
  create_project :: "event list \<Rightarrow> StateManager \<Rightarrow> string \<Rightarrow> exc + ProjectState option \<times> StateManager"
  record_crash :: "exc \<Rightarrow> string"
  EXAMPLE_PROJECTS :: "string \<rightharpoonup> example_architecture"
  PROJECT_TEMPLATES :: pyval

text \<open>Projections of a trace: the questions asked, the commands run with their exit
  status, the model requests with their answers, and the number of rollbacks, of
  orchestrator runs and of project loads.\<close>

fun questions :: "event list \<Rightarrow> string list" where
  "questions [] = []"
| "questions (AskQuestion q # tr) = q # questions tr"
| "questions (_ # tr) = questions tr"

fun commands :: "event list \<Rightarrow> (string option \<times> int) list" where
  "commands [] = []"
| "commands (RunCommand c n # tr) = (c, n) # commands tr"
| "commands (_ # tr) = commands tr"

fun llm_requests :: "event list \<Rightarrow> (convo \<times> (exc + llm_answer)) list" where
  "llm_requests [] = []"
| "llm_requests (LLMRequest c r # tr) = (c, r) # llm_requests tr"
| "llm_requests (_ # tr) = llm_requests tr"

fun rollbacks :: "event list \<Rightarrow> nat" where
  "rollbacks [] = 0"
| "rollbacks (Rollback # tr) = Suc (rollbacks tr)"
| "rollbacks (_ # tr) = rollbacks tr"

fun orchestrator_runs :: "event list \<Rightarrow> nat" where
  "orchestrator_runs [] = 0"
| "orchestrator_runs (OrchestratorRun # tr) = Suc (orchestrator_runs tr)"
| "orchestrator_runs (_ # tr) = orchestrator_runs tr"

fun project_loads :: "event list \<Rightarrow> nat" where
  "project_loads [] = 0"
| "project_loads (LoadProject # tr) = Suc (project_loads tr)"
| "project_loads (_ # tr) = project_loads tr"

text \<open>\<^verbatim>\<open>send_message\<close> is a one-way notification; \<^verbatim>\<open>ask_question\<close> returns the
  operator's input or raises when the operator leaves.\<close>

definition send_message :: "string \<Rightarrow> event list \<Rightarrow> event list" where
  "send_message m tr = tr @ [SendMessage m]"

definition ask_question :: "env \<Rightarrow> string \<Rightarrow> event list \<Rightarrow> (exc + UserInput) \<times> event list" where
  "ask_question E q tr = (ui_ask E tr q, tr @ [AskQuestion q])"

section \<open>The architecture step (core/agents/architect.py)\<close>

definition warning_message :: "string list \<Rightarrow> string option \<Rightarrow> string" where
  "warning_message deps url =
     (let message = ''Warning: GPT Pilot doesn't officially support '' @ join '', '' deps @ ''. '';
          message = message @ ''You can try to use '' @ (if length deps = 1 then ''it'' else ''them'')
                      @ '', but you may run into problems.''
      in case url of
           None \<Rightarrow> message
         | Some u \<Rightarrow> if u = [] then message
                    else message @ '' Visit '' @ u @ '' for more information.'')"

definition warn_about_dependencies ::
  "env \<Rightarrow> string list \<Rightarrow> string \<Rightarrow> string option \<Rightarrow> event list \<Rightarrow> (exc + unit) \<times> event list" where
  "warn_about_dependencies E deps dep_type url tr =
     (case ask_question E (warning_message deps url) tr of
        (Inl e, tr') \<Rightarrow> (Inl e, tr')
      | (Inr _, tr') \<Rightarrow> (Inr (), tr'))"

text \<open>
  The comprehension \<^verbatim>\<open>[dep.name for dep in deps if dep.name.lower() in DENY]\<close> over
  the names of the dependencies: \<^verbatim>\<open>None.lower()\<close> raises AttributeError, and iterating
  over a list that is \<^verbatim>\<open>None\<close> raises TypeError.
\<close>

fun warn_names :: "env \<Rightarrow> string list \<Rightarrow> string option list \<Rightarrow> exc + string list" where
  "warn_names E deny [] = Inr []"
| "warn_names E deny (None # ns) = Inl (OtherException ''AttributeError'')"
| "warn_names E deny (Some n # ns) =
     (case warn_names E deny ns of
        Inl e \<Rightarrow> Inl e
      | Inr ws \<Rightarrow> Inr (if str_lower E n \<in> set deny then n # ws else ws))"

definition warn_system_deps :: "env \<Rightarrow> Architecture \<Rightarrow> exc + string list" where
  "warn_system_deps E arch =
     (case system_dependencies arch of
        None \<Rightarrow> Inl (OtherException ''TypeError'')
      | Some deps \<Rightarrow> warn_names E WARN_SYSTEM_DEPS (map name deps))"

definition warn_package_deps :: "env \<Rightarrow> Architecture \<Rightarrow> exc + string list" where
  "warn_package_deps E arch =
     (case package_dependencies arch of
        None \<Rightarrow> Inl (OtherException ''TypeError'')
      | Some deps \<Rightarrow> warn_names E WARN_FRAMEWORKS (map pkg_name deps))"

definition check_compatibility :: "env \<Rightarrow> Architecture \<Rightarrow> event list \<Rightarrow> (exc + bool) \<times> event list" where
  "check_compatibility E arch tr =
     (case warn_system_deps E arch of
        Inl e \<Rightarrow> (Inl e, tr)
      | Inr wsd \<Rightarrow>
          (case warn_package_deps E arch of
             Inl e \<Rightarrow> (Inl e, tr)
           | Inr wpd \<Rightarrow>
               (case (if wsd \<noteq> []
                      then warn_about_dependencies E wsd ''system dependencies'' None tr
                      else (Inr (), tr)) of
                  (Inl e, tr1) \<Rightarrow> (Inl e, tr1)
                | (Inr _, tr1) \<Rightarrow>
                    (case (if wpd \<noteq> []
                           then warn_about_dependencies E wpd ''frameworks''
                                  (Some WARN_FRAMEWORKS_URL) tr1
                           else (Inr (), tr1)) of
                       (Inl e, tr2) \<Rightarrow> (Inl e, tr2)
                     | (Inr _, tr2) \<Rightarrow> (Inr True, tr2)))))"

definition technologies_convo :: "env \<Rightarrow> convo" where
  "technologies_convo E =
     [Template ''technologies'' [(''templates'', PROJECT_TEMPLATES E)], RequireSchema ''Architecture'']"

definition plan_architecture ::
  "env \<Rightarrow> Specification \<Rightarrow> event list \<Rightarrow> (exc + Specification) \<times> event list" where
  "plan_architecture E spec tr =
     (let tr1 = send_message ''Planning project architecture ...'' tr;
          convo = technologies_convo E
      in case llm_architecture E tr1 convo of
           Inl e \<Rightarrow> (Inl e, tr1 @ [LLMRequest convo (Inl e)])
         | Inr arch \<Rightarrow>
             (case check_compatibility E arch (tr1 @ [LLMRequest convo (Inr (AnsArchitecture arch))]) of
                (Inl e, tr2) \<Rightarrow> (Inl e, tr2)
              | (Inr _, tr2) \<Rightarrow>
                  (case system_dependencies arch of
                     None \<Rightarrow> (Inl (OtherException ''TypeError''), tr2)
                   | Some sds \<Rightarrow>
                       (case package_dependencies arch of
                          None \<Rightarrow> (Inl (OtherException ''TypeError''), tr2)
                        | Some pds \<Rightarrow>
                            (Inr (spec\<lparr>spec_architecture := architecture arch,
                                       spec_system_dependencies := map model_dump sds,
                                       spec_package_dependencies := pds,
                                       spec_template := template arch\<rparr>), tr2)))))"

definition prepare_example_project ::
  "env \<Rightarrow> Specification \<Rightarrow> event list \<Rightarrow> (exc + Specification) \<times> event list" where
  "prepare_example_project E spec tr =
     (case example_project spec of
        None \<Rightarrow> (Inl (KeyError ''None''), tr)
      | Some n \<Rightarrow>
          (case EXAMPLE_PROJECTS E n of
             None \<Rightarrow> (Inl (KeyError n), tr)
           | Some arch \<Rightarrow>
               (Inr (spec\<lparr>spec_architecture := ex_architecture arch,
                          spec_system_dependencies := ex_system_dependencies arch,
                          spec_package_dependencies := ex_package_dependencies arch,
                          spec_template := ex_template arch\<rparr>),
                tr @ [TelemetrySet ''template'' (opt_str (ex_template arch))])))"

text \<open>The two status symbols of the messages, as their UTF-8 bytes.\<close>

definition CROSS_MARK :: string where
  "CROSS_MARK = [CHR 0xE2, CHR 0x9D, CHR 0x8C]"

definition CHECK_MARK :: string where
  "CHECK_MARK = [CHR 0xE2, CHR 0x9C, CHR 0x85]"

definition install_prompt :: "dep_dict \<Rightarrow> string" where
  "install_prompt dep =
     ''Once you have installed '' @ py_str (dep_name dep) @ '', please press Continue.''"

text \<open>
  The loop of \<^verbatim>\<open>check_system_dependencies\<close>. It returns the exception that ended it
  (if any), the dependencies with \<^verbatim>\<open>installed\<close> written into those it reached, and
  the trace.
\<close>

fun check_deps_loop ::
  "env \<Rightarrow> dep_dict list \<Rightarrow> event list \<Rightarrow> exc option \<times> dep_dict list \<times> event list" where
  "check_deps_loop E [] tr = (None, [], tr)"
| "check_deps_loop E (dep # deps) tr =
     (let status_code = proc_run E tr (dep_test dep);
          tr1 = tr @ [RunCommand (dep_test dep) status_code];
          dep' = dep\<lparr>dep_installed := Some (status_code = 0)\<rparr>
      in if status_code \<noteq> 0 then
           (let remedy = (if dep_required_locally dep' = Some True
                          then ''Please install it before proceeding.''
                          else ''If you would like to use it locally, please install it before proceeding.'');
                tr2 = send_message
                        (CROSS_MARK @ '' '' @ py_str (dep_name dep') @ '' is not available. '' @ remedy) tr1
            in case ask_question E (install_prompt dep') tr2 of
                 (Inl e, tr3) \<Rightarrow> (Some e, dep' # deps, tr3)
               | (Inr _, tr3) \<Rightarrow>
                   (case check_deps_loop E deps tr3 of
                      (r, deps', tr4) \<Rightarrow> (r, dep' # deps', tr4)))
         else
           (let tr2 = send_message (CHECK_MARK @ '' '' @ py_str (dep_name dep') @ '' is available.'') tr1
            in case check_deps_loop E deps tr2 of
                 (r, deps', tr4) \<Rightarrow> (r, dep' # deps', tr4)))"

definition opt_bool :: "bool option \<Rightarrow> pyval" where
  "opt_bool x = (case x of None \<Rightarrow> PNone | Some b \<Rightarrow> PBool b)"

definition dep_pyval :: "dep_dict \<Rightarrow> pyval" where
  "dep_pyval d =
     PDict ([(''name'', opt_str (dep_name d)), (''description'', opt_str (dep_description d)),
             (''test'', opt_str (dep_test d)),
             (''required_locally'', opt_bool (dep_required_locally d))]
            @ (case dep_installed d of None \<Rightarrow> [] | Some b \<Rightarrow> [(''installed'', PBool b)]))"

definition pkg_pyval :: "PackageDependency \<Rightarrow> pyval" where
  "pkg_pyval d =
     PDict [(''name'', opt_str (pkg_name d)), (''description'', opt_str (pkg_description d))]"

definition check_system_dependencies ::
  "env \<Rightarrow> Specification \<Rightarrow> event list \<Rightarrow> (exc + Specification) \<times> event list" where
  "check_system_dependencies E spec tr =
     (case check_deps_loop E (spec_system_dependencies spec) tr of
        (Some e, deps, tr1) \<Rightarrow> (Inl e, tr1)
      | (None, deps, tr1) \<Rightarrow>
          (Inr (spec\<lparr>spec_system_dependencies := deps\<rparr>),
           tr1 @ [TelemetrySet ''architecture''
                    (PDict [(''description'', opt_str (spec_architecture spec)),
                            (''system_dependencies'', PList (map dep_pyval deps)),
                            (''package_dependencies'',
                               PList (map pkg_pyval (spec_package_dependencies spec)))])]))"

text \<open>
  \<^verbatim>\<open>Architect.run\<close>. The specification is cloned, so an exception leaves both
  snapshots as they were.
\<close>

definition is_example :: "Specification \<Rightarrow> bool" where
  "is_example spec = (case example_project spec of None \<Rightarrow> False | Some n \<Rightarrow> n \<noteq> [])"

definition architect_run ::
  "env \<Rightarrow> StateManager \<Rightarrow> event list \<Rightarrow> (exc + AgentResponse) \<times> StateManager \<times> event list" where
  "architect_run E sm tr =
     (let tr0 = tr @ [SendProjectStage ''architecture''];
          spec = state_specification (current_state sm)
      in case (if is_example spec
               then prepare_example_project E spec tr0
               else plan_architecture E spec tr0) of
           (Inl e, tr1) \<Rightarrow> (Inl e, sm, tr1)
         | (Inr spec1, tr1) \<Rightarrow>
             (case check_system_dependencies E spec1 tr1 of
                (Inl e, tr2) \<Rightarrow> (Inl e, sm, tr2)
              | (Inr spec2, tr2) \<Rightarrow>
                  (Inr Done,
                   sm\<lparr>next_state := (next_state sm)\<lparr>state_specification := spec2,
                                                      action := Some ARCHITECTURE_STEP_NAME\<rparr>\<rparr>,
                   tr2 @ [TelemetrySet ''template'' (opt_str (spec_template spec2))])))"

section \<open>The implementation agent (core/agents/code_monkey.py)\<close>

subsection \<open>Describing files\<close>

text \<open>
  \<^verbatim>\<open>not file.meta.get("description")\<close>: the key is missing or its value is falsy.
  \<open>to_describe\<close> is the dictionary comprehension over the files of the committed
  snapshot; a later file with the same path overwrites an earlier one.
\<close>

definition lacks_description :: "File \<Rightarrow> bool" where
  "lacks_description file =
     (case meta file ''description'' of None \<Rightarrow> True | Some v \<Rightarrow> \<not> truthy v)"

definition to_describe :: "File list \<Rightarrow> string \<rightharpoonup> string" where
  "to_describe fs =
     foldl (\<lambda>m file. m(path file \<mapsto> content file)) Map.empty (filter lacks_description fs)"

definition describe_convo :: "string \<Rightarrow> string \<Rightarrow> convo" where
  "describe_convo p c =
     [Template ''describe_file'' [(''path'', PStr p), (''content'', PStr c)],
      RequireSchema ''FileDescription'']"

definition empty_file_meta :: "(string \<rightharpoonup> pyval) \<Rightarrow> (string \<rightharpoonup> pyval)" where
  "empty_file_meta m = m(''description'' \<mapsto> PStr ''Empty file'', ''references'' \<mapsto> PList [])"

definition described_meta :: "(string \<rightharpoonup> pyval) \<Rightarrow> FileDescription \<Rightarrow> (string \<rightharpoonup> pyval)" where
  "described_meta m r =
     m(''description'' \<mapsto> PStr (summary r), ''references'' \<mapsto> PList (map PStr (references r)))"

text \<open>
  The loop over the files of the working snapshot. It returns the exception that ended it
  (if any), the files with the metadata written so far (the source mutates them in place),
  and the trace.
\<close>

fun describe_loop ::
  "env \<Rightarrow> (string \<rightharpoonup> string) \<Rightarrow> File list \<Rightarrow> event list \<Rightarrow> exc option \<times> File list \<times> event list" where
  "describe_loop E td [] tr = (None, [], tr)"
| "describe_loop E td (file # fs) tr =
     (case td (path file) of
        None \<Rightarrow>
          (case describe_loop E td fs tr of (r, fs', tr') \<Rightarrow> (r, file # fs', tr'))
      | Some c \<Rightarrow>
          if c = [] then
            (case describe_loop E td fs tr of
               (r, fs', tr') \<Rightarrow> (r, file\<lparr>meta := empty_file_meta (meta file)\<rparr> # fs', tr'))
          else
            (let tr1 = send_message (''Describing file '' @ path file @ '' ...'') tr;
                 convo = describe_convo (path file) c
             in case llm_describe E tr1 convo of
                  Inl e \<Rightarrow> (Some e, file # fs, tr1 @ [LLMRequest convo (Inl e)])
                | Inr llm_response \<Rightarrow>
                    (case describe_loop E td fs
                            (tr1 @ [LLMRequest convo (Inr (AnsFileDescription llm_response))]) of
                       (r, fs', tr') \<Rightarrow>
                         (r, file\<lparr>meta := described_meta (meta file) llm_response\<rparr> # fs', tr'))))"

definition describe_files ::
  "env \<Rightarrow> StateManager \<Rightarrow> event list \<Rightarrow> (exc + AgentResponse) \<times> StateManager \<times> event list" where
  "describe_files E sm tr =
     (case describe_loop E (to_describe (files (current_state sm))) (files (next_state sm)) tr of
        (Some e, fs', tr') \<Rightarrow> (Inl e, sm\<lparr>next_state := (next_state sm)\<lparr>files := fs'\<rparr>\<rparr>, tr')
      | (None, fs', tr') \<Rightarrow> (Inr Done, sm\<lparr>next_state := (next_state sm)\<lparr>files := fs'\<rparr>\<rparr>, tr'))"

subsection \<open>Implementing a file\<close>

text \<open>
  Modelled from the spec: \<^verbatim>\<open>StateManager.get_file_by_path\<close> is not part of the three
  modules; it is the File Record of the committed snapshot that the path identifies, if any.
\<close>

definition get_file_by_path :: "StateManager \<Rightarrow> string \<Rightarrow> File option" where
  "get_file_by_path sm p = find (\<lambda>file. path file = p) (files (current_state sm))"

definition handle_previous_response ::
  "AgentResponse option \<Rightarrow> string \<Rightarrow> string \<Rightarrow> StateManager \<Rightarrow> event list
     \<Rightarrow> (int \<times> string option) \<times> StateManager \<times> event list" where
  "handle_previous_response prev file_name file_content sm tr =
     (case prev of
        Some (CodeReviewFeedback prev_attempt prev_feedback new_content approved_content) \<Rightarrow>
          ((prev_attempt + 1, Some prev_feedback), sm,
           send_message (''Reworking changes I made to '' @ file_name @ '' ...'') tr)
      | _ \<Rightarrow>
          ((1, None),
           sm\<lparr>next_state := (next_state sm)
                \<lparr>action := Some ((if file_content \<noteq> [] then ''Update file '' else ''Create file '')
                                  @ [CHR 0x22] @ basename file_name @ [CHR 0x22])\<rparr>\<rparr>,
           send_message ((if file_content \<noteq> [] then ''Updating existing'' else ''Creating new'')
                         @ '' file '' @ file_name @ '' ...'') tr))"

definition extract_iteration_data ::
  "Iteration list \<Rightarrow> Task option \<Rightarrow> exc + (string option \<times> string option \<times> string)" where
  "extract_iteration_data its task =
     (if its \<noteq> [] then
        (case iteration_description (last its) of
           None \<Rightarrow> Inl (KeyError ''description'')
         | Some d \<Rightarrow> Inr (user_feedback (last its), user_feedback_qa (last its), d))
      else
        (case task of
           None \<Rightarrow> Inl (OtherException ''TypeError'')
         | Some t \<Rightarrow>
             (case instructions t of
                None \<Rightarrow> Inl (KeyError ''instructions'')
              | Some i \<Rightarrow> Inr (None, None, i))))"

definition prepare_conversation ::
  "AgentResponse option \<Rightarrow> string \<Rightarrow> string \<Rightarrow> string \<Rightarrow> string option \<Rightarrow> string option
     \<Rightarrow> string option \<Rightarrow> exc + convo" where
  "prepare_conversation prev file_name file_content instr uf uf_qa feedback =
     (let convo = [Template ''implement_changes''
                     [(''file_name'', PStr file_name), (''file_content'', PStr file_content),
                      (''instructions'', PStr instr), (''user_feedback'', opt_str uf),
                      (''user_feedback_qa'', opt_str uf_qa)]]
      in case feedback of
           None \<Rightarrow> Inr convo
         | Some f \<Rightarrow>
             if f = [] then Inr convo
             else
               (case prev of
                  Some (CodeReviewFeedback prev_attempt prev_feedback new_content approved_content) \<Rightarrow>
                    Inr (convo @
                         [Assistant (replicate 3 (CHR 0x60) @ [CHR 0x0A] @ new_content @ [CHR 0x0A]
                                     @ replicate 3 (CHR 0x60) @ [CHR 0x0A]),
                          Template ''review_feedback''
                            [(''content'', PStr approved_content),
                             (''original_content'', PStr file_content),
                             (''rework_feedback'', PStr f)]])
                | _ \<Rightarrow> Inl (OtherException ''AttributeError'')))"

definition implement_changes ::
  "env \<Rightarrow> AgentResponse option \<Rightarrow> Step \<Rightarrow> StateManager \<Rightarrow> event list
     \<Rightarrow> (exc + AgentResponse) \<times> StateManager \<times> event list" where
  "implement_changes E prev step sm tr =
     (case save_file_path step of
        None \<Rightarrow> (Inl (KeyError ''path''), sm, tr)
      | Some file_name \<Rightarrow>
     (let file_content = (case get_file_by_path sm file_name of
                            None \<Rightarrow> []
                          | Some current_file \<Rightarrow> content current_file);
          task = current_task (current_state sm)
      in case handle_previous_response prev file_name file_content sm tr of
           ((attempt, feedback), sm1, tr1) \<Rightarrow>
             (case extract_iteration_data (iterations (current_state sm)) task of
                Inl e \<Rightarrow> (Inl e, sm1, tr1)
              | Inr (uf, uf_qa, instr) \<Rightarrow>
                  (case prepare_conversation prev file_name file_content instr uf uf_qa feedback of
                     Inl e \<Rightarrow> (Inl e, sm1, tr1)
                   | Inr convo \<Rightarrow>
                       (case llm_code E tr1 convo of
                          Inl e \<Rightarrow> (Inl e, sm1, tr1 @ [LLMRequest convo (Inl e)])
                        | Inr response \<Rightarrow>
                            (case task of
                               None \<Rightarrow>
                                 (Inl (OtherException ''TypeError''), sm1,
                                  tr1 @ [LLMRequest convo (Inr (AnsText response))])
                             | Some t \<Rightarrow>
                                 (case instructions t of
                                    None \<Rightarrow>
                                      (Inl (KeyError ''instructions''), sm1,
                                       tr1 @ [LLMRequest convo (Inr (AnsText response))])
                                  | Some i \<Rightarrow>
                                      (Inr (CodeReview file_name i file_content response attempt),
                                       sm1,
                                       tr1 @ [LLMRequest convo (Inr (AnsText response))]))))))))"

definition code_monkey_run ::
  "env \<Rightarrow> AgentResponse option \<Rightarrow> Step \<Rightarrow> StateManager \<Rightarrow> event list
     \<Rightarrow> (exc + AgentResponse) \<times> StateManager \<times> event list" where
  "code_monkey_run E prev step sm tr =
     (case prev of
        Some DescribeFiles \<Rightarrow> describe_files E sm tr
      | _ \<Rightarrow> implement_changes E prev step sm tr)"

section \<open>The session (core/cli/main.py)\<close>

text \<open>
  Modelled from the spec: \<^verbatim>\<open>StateManager.rollback\<close> is not part of the three modules;
  it discards any uncommitted working snapshot and restores the last committed one, so the
  working copy becomes the committed snapshot again and the committed snapshot stays.
\<close>

definition rollback :: "StateManager \<Rightarrow> event list \<Rightarrow> StateManager \<times> event list" where
  "rollback sm tr = (sm\<lparr>next_state := current_state sm\<rparr>, tr @ [Rollback])"






section \<open>Notions used by the statements\<close>

text \<open>The operator acknowledges every prompt: no question ends in an exception.\<close>

definition acknowledges :: "env \<Rightarrow> bool" where
  "acknowledges E = (\<forall>tr q. \<exists>u. ui_ask E tr q = Inr u)"

text \<open>The dependencies with \<^verbatim>\<open>installed\<close> written from a list of exit statuses.\<close>

definition with_installed :: "dep_dict list \<Rightarrow> int list \<Rightarrow> dep_dict list" where
  "with_installed deps codes = map (\<lambda>(d, n). d\<lparr>dep_installed := Some (n = 0)\<rparr>) (zip deps codes)"

text \<open>
  What the check of one dependency leaves in the trace when its test command exits with
  status \<open>n\<close>, and the exit statuses of the test commands of a list of dependencies: the
  status of each is what the process runner answers for its test command on the trace as
  it stands when the command is run.
\<close>

definition dep_events :: "dep_dict \<Rightarrow> int \<Rightarrow> event list" where
  "dep_events d n =
     RunCommand (dep_test d) n #
     (if n \<noteq> 0 then
        [SendMessage (CROSS_MARK @ '' '' @ py_str (dep_name d) @ '' is not available. ''
                      @ (if dep_required_locally d = Some True
                         then ''Please install it before proceeding.''
                         else ''If you would like to use it locally, please install it before proceeding.'')),
         AskQuestion (install_prompt d)]
      else [SendMessage (CHECK_MARK @ '' '' @ py_str (dep_name d) @ '' is available.'')])"

fun exit_statuses :: "env \<Rightarrow> dep_dict list \<Rightarrow> event list \<Rightarrow> int list" where
  "exit_statuses E [] tr = []"
| "exit_statuses E (d # ds) tr =
     proc_run E tr (dep_test d)
       # exit_statuses E ds (tr @ dep_events d (proc_run E tr (dep_test d)))"

text \<open>
  Notions for the file-description step: the path a describe request is about, the files
  of the working snapshot that need a model request, the requests they give rise to, and
  what the step does to one file given the requests it made. A stretch of trace is
  faithful when every model request in it carries what the describing model answers to
  that request on the trace up to it.
\<close>

fun describe_path :: "convo \<Rightarrow> string option" where
  "describe_path (Template n ((k, PStr p) # args) # rest) =
     (if n = ''describe_file'' \<and> k = ''path'' then Some p else None)"
| "describe_path _ = None"

definition pending :: "(string \<rightharpoonup> string) \<Rightarrow> File \<Rightarrow> bool" where
  "pending td g = (case td (path g) of None \<Rightarrow> False | Some c \<Rightarrow> c \<noteq> [])"

definition pending_convos :: "(string \<rightharpoonup> string) \<Rightarrow> File list \<Rightarrow> convo list" where
  "pending_convos td fs = map (\<lambda>g. describe_convo (path g) (the (td (path g)))) (filter (pending td) fs)"

definition described_as ::
  "(string \<rightharpoonup> string) \<Rightarrow> (convo \<times> (exc + llm_answer)) list \<Rightarrow> File \<Rightarrow> File \<Rightarrow> bool" where
  "described_as td reqs g g' =
     (case td (path g) of
        None \<Rightarrow> g' = g
      | Some c \<Rightarrow>
          if c = [] then g' = g\<lparr>meta := empty_file_meta (meta g)\<rparr>
          else (\<exists>r. (describe_convo (path g) c, Inr (AnsFileDescription r)) \<in> set reqs
                  \<and> g' = g\<lparr>meta := described_meta (meta g) r\<rparr>))"

fun describe_faithful :: "env \<Rightarrow> event list \<Rightarrow> event list \<Rightarrow> bool" where
  "describe_faithful E pre [] = True"
| "describe_faithful E pre (LLMRequest cv a # es) =
     (a = map_sum id AnsFileDescription (llm_describe E pre cv)
      \<and> describe_faithful E (pre @ [LLMRequest cv a]) es)"
| "describe_faithful E pre (e # es) = describe_faithful E (pre @ [e]) es"

text \<open>The attempt counter a code-review request carries.\<close>

fun review_attempt :: "AgentResponse \<Rightarrow> int option" where
  "review_attempt (CodeReview file_name instr old_content new_content attempt) = Some attempt"
| "review_attempt _ = None"

subsection \<open>A concrete project and outside world\<close>

text \<open>
  The lowercasing of the concrete world maps the ASCII capitals and the Kelvin sign
  (U+212A, bytes E2 84 AA) to their lowercase letters and leaves every other byte; it is
  what \<^verbatim>\<open>str.lower\<close> gives on the names used below.
\<close>

definition lower_char :: "char \<Rightarrow> char" where
  "lower_char c =
     (case map_of (zip ''ABCDEFGHIJKLMNOPQRSTUVWXYZ'' ''abcdefghijklmnopqrstuvwxyz'') c of
        None \<Rightarrow> c
      | Some d \<Rightarrow> d)"

fun lower_bytes :: "string \<Rightarrow> string" where
  "lower_bytes (a # b # c # s) =
     (if a = CHR 0xE2 \<and> b = CHR 0x84 \<and> c = CHR 0xAA then CHR ''k'' # lower_bytes s
      else lower_char a # lower_bytes (b # c # s))"
| "lower_bytes (a # s) = lower_char a # lower_bytes s"
| "lower_bytes [] = []"

definition continue_input :: UserInput where
  "continue_input = \<lparr>input_text = ''continue'', cancelled = False\<rparr>"

definition docker_dep :: SystemDependency where
  "docker_dep =
     \<lparr>name = Some ''Docker'', description = Some ''Container runtime'',
      test = Some ''docker --version'', required_locally = Some True\<rparr>"

definition node_dep :: SystemDependency where
  "node_dep =
     \<lparr>name = Some ''Node.js'', description = Some ''JavaScript runtime'',
      test = Some ''node --version'', required_locally = Some True\<rparr>"

definition demo_architecture :: Architecture where
  "demo_architecture =
     \<lparr>architecture = Some ''Web application'',
      system_dependencies = Some [docker_dep, node_dep],
      package_dependencies =
        Some [\<lparr>pkg_name = Some ''Vue.JS'', pkg_description = Some ''Frontend framework''\<rparr>,
              \<lparr>pkg_name = Some ''express'', pkg_description = Some ''Web server''\<rparr>],
      template = None\<rparr>"

text \<open>An answer of the model in which one system dependency came without a name.\<close>

definition nameless_architecture :: Architecture where
  "nameless_architecture =
     demo_architecture
       \<lparr>system_dependencies :=
          Some [\<lparr>name = None, description = Some ''A database'', test = Some ''mongod --version'',
                 required_locally = Some True\<rparr>, docker_dep]\<rparr>"

definition demo_bundle :: example_architecture where
  "demo_bundle =
     \<lparr>ex_architecture = Some ''Todo application'',
      ex_system_dependencies =
        [\<lparr>dep_name = Some ''Node.js'', dep_description = Some ''JavaScript runtime'',
          dep_test = Some ''node --version'', dep_required_locally = Some True,
          dep_installed = None\<rparr>],
      ex_package_dependencies =
        [\<lparr>pkg_name = Some ''express'', pkg_description = Some ''Web server''\<rparr>],
      ex_template = Some ''node_express_mongoose''\<rparr>"

definition demo_env :: env where
  "demo_env =
     \<lparr>str_lower = lower_bytes,
      ui_ask = (\<lambda>tr q. Inr continue_input),
      proc_run = (\<lambda>tr c. if c = Some ''docker --version'' then 127 else 0),
      llm_architecture = (\<lambda>tr c. Inr demo_architecture),
      llm_describe = (\<lambda>tr c. Inr \<lparr>summary = ''A module'', references = [''util.py'']\<rparr>),
      llm_code = (\<lambda>tr c. Inr ''print(1)''),
      all_llms = [''openai''],
      api_check = (\<lambda>tr p. Inr True),
      orca_run = (\<lambda>sm tr. (Inr True, sm, tr)),
      load_project = (\<lambda>tr sm a. Inr (True, sm)),
      create_project = (\<lambda>tr sm n. Inr (Some (current_state sm), sm)),
      record_crash = (\<lambda>e. ''Traceback''),
      EXAMPLE_PROJECTS = [''example'' \<mapsto> demo_bundle],
      PROJECT_TEMPLATES = PNone\<rparr>"


definition demo_spec :: Specification where
  "demo_spec =
     \<lparr>spec_description = ''A todo app'', spec_architecture = None, spec_system_dependencies = [],
      spec_package_dependencies = [], spec_template = None, example_project = None\<rparr>"

definition demo_state :: ProjectState where
  "demo_state =
     \<lparr>files = [], state_specification = demo_spec, current_task = None, iterations = [],
      action = None\<rparr>"

definition demo_sm :: StateManager where
  "demo_sm = \<lparr>project_id = ''p1'', current_state = demo_state, next_state = demo_state\<rparr>"

definition example_sm :: StateManager where
  "example_sm =
     \<lparr>project_id = ''p2'',
      current_state = demo_state\<lparr>state_specification := demo_spec\<lparr>example_project := Some ''example''\<rparr>\<rparr>,
      next_state = demo_state\<lparr>state_specification := demo_spec\<lparr>example_project := Some ''example''\<rparr>\<rparr>\<rparr>"

definition app_py :: File where
  "app_py = \<lparr>path = ''app.py'', content = [], meta = Map.empty\<rparr>"

definition util_py :: File where
  "util_py = \<lparr>path = ''util.py'', content = ''x = 1'', meta = [''language'' \<mapsto> PStr ''python'']\<rparr>"

definition done_py :: File where
  "done_py = \<lparr>path = ''done.py'', content = ''y = 2'',
              meta = [''description'' \<mapsto> PStr ''Already described'']\<rparr>"

definition files_sm :: StateManager where
  "files_sm =
     \<lparr>project_id = ''p3'',
      current_state = demo_state\<lparr>files := [app_py, util_py, done_py]\<rparr>,
      next_state = demo_state\<lparr>files := [app_py, util_py, done_py]\<rparr>\<rparr>"

definition task_sm :: StateManager where
  "task_sm =
     \<lparr>project_id = ''p4'',
      current_state = demo_state\<lparr>files := [util_py],
                                 current_task := Some \<lparr>instructions = Some ''Add a route''\<rparr>\<rparr>,
      next_state = demo_state\<lparr>files := [util_py],
                              current_task := Some \<lparr>instructions = Some ''Add a route''\<rparr>\<rparr>\<rparr>"

definition util_step :: Step where
  "util_step = \<lparr>save_file_path = Some ''util.py''\<rparr>"







section \<open>Properties of the architecture step\<close>

subsection \<open>Facts about traces\<close>

lemma questions_append: "questions (a @ b) = questions a @ questions b"
  by (induction a rule: questions.induct) simp_all

lemma commands_append: "commands (a @ b) = commands a @ commands b"
  by (induction a rule: commands.induct) simp_all

lemma llm_requests_append: "llm_requests (a @ b) = llm_requests a @ llm_requests b"
  by (induction a rule: llm_requests.induct) simp_all

lemma rollbacks_append: "rollbacks (a @ b) = rollbacks a + rollbacks b"
  by (induction a rule: rollbacks.induct) simp_all

lemma orchestrator_runs_append: "orchestrator_runs (a @ b) = orchestrator_runs a + orchestrator_runs b"
  by (induction a rule: orchestrator_runs.induct) simp_all

lemma project_loads_append: "project_loads (a @ b) = project_loads a + project_loads b"
  by (induction a rule: project_loads.induct) simp_all


lemmas trace_append =
  questions_append commands_append llm_requests_append rollbacks_append
  orchestrator_runs_append project_loads_append

subsection \<open>The compatibility check\<close>

lemma ask_question_ack:
  "acknowledges E \<Longrightarrow> \<exists>u. ask_question E q tr = (Inr u, tr @ [AskQuestion q])"
  unfolding acknowledges_def ask_question_def by metis

lemma warn_about_dependencies_ack:
  "acknowledges E \<Longrightarrow>
   warn_about_dependencies E deps ty url tr = (Inr (), tr @ [AskQuestion (warning_message deps url)])"
  using ask_question_ack [of E "warning_message deps url" tr]
  by (auto simp: warn_about_dependencies_def)

lemma warn_names_named:
  "warn_names E deny (map Some ns) = Inr (filter (\<lambda>n. str_lower E n \<in> set deny) ns)"
  by (induction ns) simp_all

lemma warn_names_nameless:
  "None \<in> set ns \<Longrightarrow> warn_names E deny ns = Inl (OtherException ''AttributeError'')"
proof (induction ns)
  case Nil
  then show ?case by simp
next
  case (Cons a ns)
  then show ?case by (cases a) auto
qed

lemma check_compatibility_ack:
  "acknowledges E \<Longrightarrow> warn_system_deps E arch = Inr wsd \<Longrightarrow> warn_package_deps E arch = Inr wpd \<Longrightarrow>
   check_compatibility E arch tr =
     (Inr True,
      tr @ (if wsd \<noteq> [] then [AskQuestion (warning_message wsd None)] else [])
         @ (if wpd \<noteq> []
            then [AskQuestion (warning_message wpd (Some WARN_FRAMEWORKS_URL))] else []))"
  by (simp add: check_compatibility_def warn_about_dependencies_ack)

lemma check_compatibility_none:
  "warn_system_deps E arch = Inr [] \<Longrightarrow> warn_package_deps E arch = Inr [] \<Longrightarrow>
   check_compatibility E arch tr = (Inr True, tr)"
  by (simp add: check_compatibility_def)

lemma check_compatibility_llm:
  "llm_requests (snd (check_compatibility E arch tr)) = llm_requests tr"
  by (auto simp: check_compatibility_def warn_about_dependencies_def ask_question_def trace_append
           split: sum.splits prod.splits if_splits)

subsection \<open>The dependency check\<close>

lemma check_deps_loop_llm:
  "llm_requests (snd (snd (check_deps_loop E deps tr))) = llm_requests tr"
proof (induction deps arbitrary: tr)
  case Nil
  show ?case by simp
next
  case (Cons d deps)
  show ?case
    by (simp add: Let_def ask_question_def send_message_def trace_append Cons.IH
                  case_prod_beta split: sum.splits)
qed

lemma install_prompt_installed [simp]:
  "install_prompt (d\<lparr>dep_installed := x\<rparr>) = install_prompt d"
  by (simp add: install_prompt_def)

lemma length_exit_statuses [simp]: "length (exit_statuses E deps tr) = length deps"
  by (induction deps arbitrary: tr) simp_all

lemma check_deps_loop_step:
  assumes ack: "acknowledges E"
  shows "check_deps_loop E (d # ds) tr =
     (case check_deps_loop E ds (tr @ dep_events d (proc_run E tr (dep_test d))) of
        (r, ds', t) \<Rightarrow> (r, d\<lparr>dep_installed := Some (proc_run E tr (dep_test d) = 0)\<rparr> # ds', t))"
proof (cases "proc_run E tr (dep_test d) = 0")
  case True
  then show ?thesis
    by (simp add: Let_def send_message_def dep_events_def)
next
  case False
  let ?n = "proc_run E tr (dep_test d)"
  let ?m = "SendMessage (CROSS_MARK @ '' '' @ py_str (dep_name d) @ '' is not available. ''
                      @ (if dep_required_locally d = Some True
                         then ''Please install it before proceeding.''
                         else ''If you would like to use it locally, please install it before proceeding.''))"
  obtain u where "ask_question E (install_prompt d) (tr @ [RunCommand (dep_test d) ?n, ?m]) =
      (Inr u, (tr @ [RunCommand (dep_test d) ?n, ?m]) @ [AskQuestion (install_prompt d)])"
    using ask_question_ack [OF ack] by blast
  with False show ?thesis
    by (simp add: Let_def send_message_def dep_events_def)
qed

lemma check_deps_loop_ack:
  "acknowledges E \<Longrightarrow>
   check_deps_loop E deps tr =
     (None, with_installed deps (exit_statuses E deps tr),
      tr @ concat (map (\<lambda>(d, n). dep_events d n) (zip deps (exit_statuses E deps tr))))"
proof (induction deps arbitrary: tr)
  case Nil
  show ?case by (simp add: with_installed_def)
next
  case (Cons d ds)
  show ?case
    by (simp add: check_deps_loop_step [OF Cons.prems] Cons.IH [OF Cons.prems] with_installed_def
             del: check_deps_loop.simps)
qed

lemma commands_dep_events:
  "commands (concat (map (\<lambda>(d, n). dep_events d n) xs)) = map (\<lambda>(d, n). (dep_test d, n)) xs"
  by (induction xs) (auto simp: trace_append dep_events_def)

lemma questions_dep_events:
  "questions (concat (map (\<lambda>(d, n). dep_events d n) xs)) =
     map install_prompt
       (filter (\<lambda>d. dep_installed d = Some False)
          (map (\<lambda>(d, n). d\<lparr>dep_installed := Some (n = 0)\<rparr>) xs))"
  by (induction xs) (auto simp: trace_append dep_events_def)

lemma llm_requests_dep_events:
  "llm_requests (concat (map (\<lambda>(d, n). dep_events d n) xs)) = []"
  by (induction xs) (auto simp: trace_append dep_events_def)

lemma zip_tests: "map (\<lambda>(d, n). (dep_test d, n)) (zip deps codes) = zip (map dep_test deps) codes"
  by (simp add: zip_map1 case_prod_beta)

lemma check_system_dependencies_ack:
  assumes ack: "acknowledges E"
  shows "\<exists>tr'. check_system_dependencies E spec tr =
          (Inr (spec\<lparr>spec_system_dependencies :=
                        with_installed (spec_system_dependencies spec)
                          (exit_statuses E (spec_system_dependencies spec) tr)\<rparr>), tr')
      \<and> commands tr' = commands tr
            @ zip (map dep_test (spec_system_dependencies spec))
                (exit_statuses E (spec_system_dependencies spec) tr)
      \<and> questions tr' = questions tr
            @ map install_prompt (filter (\<lambda>d. dep_installed d = Some False)
                (with_installed (spec_system_dependencies spec)
                   (exit_statuses E (spec_system_dependencies spec) tr)))
      \<and> llm_requests tr' = llm_requests tr"
  by (simp add: check_system_dependencies_def check_deps_loop_ack [OF ack] trace_append
                commands_dep_events questions_dep_events llm_requests_dep_events zip_tests
                with_installed_def)

lemma check_system_dependencies_llm:
  "llm_requests (snd (check_system_dependencies E spec tr)) = llm_requests tr"
  by (simp add: check_system_dependencies_def case_prod_beta trace_append check_deps_loop_llm
           split: option.splits)

subsection \<open>The whole step\<close>

lemma prepare_example_project_llm:
  "llm_requests (snd (prepare_example_project E spec tr)) = llm_requests tr"
  by (simp add: prepare_example_project_def trace_append split: option.splits)

lemma plan_architecture_llm:
  "llm_requests (snd (plan_architecture E spec tr)) =
     llm_requests tr @
       [(technologies_convo E,
         map_sum id AnsArchitecture
           (llm_architecture E (tr @ [SendMessage ''Planning project architecture ...''])
              (technologies_convo E)))]"
  by (simp add: plan_architecture_def Let_def send_message_def case_prod_beta trace_append
                check_compatibility_llm
           split: sum.splits option.splits)

lemma architect_run_example_llm:
  "is_example (state_specification (current_state sm)) \<Longrightarrow>
   llm_requests (snd (snd (architect_run E sm tr))) = llm_requests tr"
  by (simp add: architect_run_def Let_def case_prod_beta trace_append
                check_system_dependencies_llm prepare_example_project_llm
           split: sum.splits)

lemma architect_run_novel_llm:
  "\<not> is_example (state_specification (current_state sm)) \<Longrightarrow>
   llm_requests (snd (snd (architect_run E sm tr))) =
     llm_requests tr @
       [(technologies_convo E,
         map_sum id AnsArchitecture
           (llm_architecture E
              (tr @ [SendProjectStage ''architecture'', SendMessage ''Planning project architecture ...''])
              (technologies_convo E)))]"
  by (simp add: architect_run_def Let_def case_prod_beta trace_append
                check_system_dependencies_llm plan_architecture_llm
           split: sum.splits)

lemma architect_run_after:
  assumes ack: "acknowledges E"
    and ob: "(if is_example (state_specification (current_state sm))
              then prepare_example_project E (state_specification (current_state sm))
                     (tr @ [SendProjectStage ''architecture''])
              else plan_architecture E (state_specification (current_state sm))
                     (tr @ [SendProjectStage ''architecture''])) = (Inr spec1, tr1)"
  shows "\<exists>tr'. architect_run E sm tr =
          (Inr Done,
           sm\<lparr>next_state := (next_state sm)
                \<lparr>state_specification := spec1
                    \<lparr>spec_system_dependencies :=
                       with_installed (spec_system_dependencies spec1)
                         (exit_statuses E (spec_system_dependencies spec1) tr1)\<rparr>,
                 action := Some ARCHITECTURE_STEP_NAME\<rparr>\<rparr>,
           tr')
      \<and> commands tr' = commands tr1
            @ zip (map dep_test (spec_system_dependencies spec1))
                (exit_statuses E (spec_system_dependencies spec1) tr1)
      \<and> questions tr' = questions tr1
            @ map install_prompt (filter (\<lambda>d. dep_installed d = Some False)
                (with_installed (spec_system_dependencies spec1)
                   (exit_statuses E (spec_system_dependencies spec1) tr1)))
      \<and> llm_requests tr' = llm_requests tr1"
proof -
  from check_system_dependencies_ack [OF ack, of spec1 tr1] obtain tr2 where
    chk: "check_system_dependencies E spec1 tr1 =
            (Inr (spec1\<lparr>spec_system_dependencies :=
                        with_installed (spec_system_dependencies spec1)
                          (exit_statuses E (spec_system_dependencies spec1) tr1)\<rparr>), tr2)"
    and c: "commands tr2 = commands tr1
            @ zip (map dep_test (spec_system_dependencies spec1))
                (exit_statuses E (spec_system_dependencies spec1) tr1)"
    and q: "questions tr2 = questions tr1
            @ map install_prompt (filter (\<lambda>d. dep_installed d = Some False)
                (with_installed (spec_system_dependencies spec1)
                   (exit_statuses E (spec_system_dependencies spec1) tr1)))"
    and l: "llm_requests tr2 = llm_requests tr1"
    by blast
  let ?t = "tr2 @ [TelemetrySet ''template'' (opt_str (spec_template spec1))]"
  have "architect_run E sm tr =
          (Inr Done,
           sm\<lparr>next_state := (next_state sm)
                \<lparr>state_specification := spec1
                    \<lparr>spec_system_dependencies :=
                       with_installed (spec_system_dependencies spec1)
                         (exit_statuses E (spec_system_dependencies spec1) tr1)\<rparr>,
                 action := Some ARCHITECTURE_STEP_NAME\<rparr>\<rparr>,
           ?t)"
    using ob chk by (simp add: architect_run_def)
  with c q l show ?thesis
    by (intro exI [of _ ?t]) (simp add: trace_append)
qed

subsection \<open>The concrete world\<close>

lemma demo_env_acknowledges: "acknowledges demo_env"
  by (simp add: acknowledges_def demo_env_def)


lemma demo_env_simps:
  "ui_ask demo_env tr q = Inr continue_input"
  "proc_run demo_env tr c = (if c = Some ''docker --version'' then 127 else 0)"
  "llm_architecture demo_env tr cv = Inr demo_architecture"
  "EXAMPLE_PROJECTS demo_env = [''example'' \<mapsto> demo_bundle]"
  "PROJECT_TEMPLATES demo_env = PNone"
  "str_lower demo_env = lower_bytes"
  by (simp_all add: demo_env_def)


lemma lower_bytes_simps:
  "lower_bytes ''Docker'' = ''docker''"
  "lower_bytes ''Node.js'' = ''node.js''"
  "lower_bytes ''Vue.JS'' = ''vue.js''"
  "lower_bytes ''express'' = ''express''"
  "lower_bytes (''Doc'' @ [CHR 0xE2, CHR 0x84, CHR 0xAA] @ ''er'') = ''docker''"
  by (simp_all add: lower_char_def)

lemma demo_sm_simps:
  "state_specification (current_state demo_sm) = demo_spec"
  "state_specification (current_state example_sm) = demo_spec\<lparr>example_project := Some ''example''\<rparr>"
  "is_example demo_spec = False"
  "is_example (demo_spec\<lparr>example_project := Some ''example''\<rparr>) = True"
  "next_state demo_sm = demo_state"
  by (simp_all add: demo_sm_def example_sm_def demo_state_def demo_spec_def is_example_def)

lemma demo_architecture_simps:
  "system_dependencies demo_architecture = Some [docker_dep, node_dep]"
  "package_dependencies demo_architecture =
     Some [\<lparr>pkg_name = Some ''Vue.JS'', pkg_description = Some ''Frontend framework''\<rparr>,
           \<lparr>pkg_name = Some ''express'', pkg_description = Some ''Web server''\<rparr>]"
  "system_dependencies nameless_architecture =
     Some [\<lparr>name = None, description = Some ''A database'', test = Some ''mongod --version'',
            required_locally = Some True\<rparr>, docker_dep]"
  "name docker_dep = Some ''Docker''" "name node_dep = Some ''Node.js''"
  "test docker_dep = Some ''docker --version''" "test node_dep = Some ''node --version''"
  by (simp_all add: demo_architecture_def nameless_architecture_def docker_dep_def node_dep_def)

lemma demo_warn_system_deps: "warn_system_deps demo_env demo_architecture = Inr [''Docker'']"
  by (simp add: warn_system_deps_def demo_architecture_simps demo_env_simps lower_char_def
                WARN_SYSTEM_DEPS_def)

lemma demo_warn_package_deps: "warn_package_deps demo_env demo_architecture = Inr [''Vue.JS'']"
  by (simp add: warn_package_deps_def demo_architecture_simps demo_env_simps lower_char_def
                WARN_FRAMEWORKS_def)

lemma demo_plan:
  "plan_architecture demo_env demo_spec [SendProjectStage ''architecture''] =
     (Inr (demo_spec\<lparr>spec_architecture := architecture demo_architecture,
                     spec_system_dependencies := map model_dump [docker_dep, node_dep],
                     spec_package_dependencies :=
                       [\<lparr>pkg_name = Some ''Vue.JS'', pkg_description = Some ''Frontend framework''\<rparr>,
                        \<lparr>pkg_name = Some ''express'', pkg_description = Some ''Web server''\<rparr>],
                     spec_template := template demo_architecture\<rparr>),
      [SendProjectStage ''architecture'', SendMessage ''Planning project architecture ...'',
       LLMRequest (technologies_convo demo_env) (Inr (AnsArchitecture demo_architecture)),
       AskQuestion (warning_message [''Docker''] None),
       AskQuestion (warning_message [''Vue.JS''] (Some WARN_FRAMEWORKS_URL))])"
  by (simp add: plan_architecture_def send_message_def demo_env_simps demo_architecture_simps
                check_compatibility_ack [OF demo_env_acknowledges demo_warn_system_deps
                                            demo_warn_package_deps])

lemma demo_exit_statuses:
  "exit_statuses demo_env (map model_dump [docker_dep, node_dep]) tr = [127, 0]"
  by (simp add: model_dump_def demo_architecture_simps demo_env_simps)

subsection \<open>The claims about the architecture step\<close>

text \<open>
  Claim C4. With an operator who acknowledges every prompt: once the dependencies are
  obtained, the step runs the test command of each declared system dependency exactly once,
  in order; the status of each is the one the process runner answers for that command
  (\<open>exit_statuses\<close>), and \<open>installed = (status = 0)\<close> is stored for it; the install
  prompt is asked for exactly the dependencies that are not installed; and the step
  returns \<open>Done\<close> with these dependencies in the working snapshot, whatever the statuses.
\<close>

theorem system_dependencies_checked:
  assumes "acknowledges E"
  shows "case (if is_example (state_specification (current_state sm))
               then prepare_example_project E (state_specification (current_state sm))
                      (tr @ [SendProjectStage ''architecture''])
               else plan_architecture E (state_specification (current_state sm))
                      (tr @ [SendProjectStage ''architecture''])) of
           (Inl e, tr1) \<Rightarrow> architect_run E sm tr = (Inl e, sm, tr1)
         | (Inr spec1, tr1) \<Rightarrow>
             fst (architect_run E sm tr) = Inr Done
             \<and> length (exit_statuses E (spec_system_dependencies spec1) tr1) =
                 length (spec_system_dependencies spec1)
             \<and> fst (snd (architect_run E sm tr)) =
                 sm\<lparr>next_state := (next_state sm)
                      \<lparr>state_specification := spec1
                          \<lparr>spec_system_dependencies :=
                             with_installed (spec_system_dependencies spec1)
                               (exit_statuses E (spec_system_dependencies spec1) tr1)\<rparr>,
                       action := Some ARCHITECTURE_STEP_NAME\<rparr>\<rparr>
             \<and> commands (snd (snd (architect_run E sm tr))) =
                 commands tr1 @ zip (map dep_test (spec_system_dependencies spec1))
                                  (exit_statuses E (spec_system_dependencies spec1) tr1)
             \<and> questions (snd (snd (architect_run E sm tr))) =
                 questions tr1
                 @ map install_prompt
                     (filter (\<lambda>d. dep_installed d = Some False)
                        (with_installed (spec_system_dependencies spec1)
                           (exit_statuses E (spec_system_dependencies spec1) tr1)))"
proof -
  let ?r = "if is_example (state_specification (current_state sm))
               then prepare_example_project E (state_specification (current_state sm))
                      (tr @ [SendProjectStage ''architecture''])
               else plan_architecture E (state_specification (current_state sm))
                      (tr @ [SendProjectStage ''architecture''])"
  obtain x tr1 where r: "?r = (x, tr1)" by (cases ?r) auto
  show ?thesis
  proof (cases x)
    case (Inl e)
    with r show ?thesis by (simp add: architect_run_def)
  next
    case (Inr spec1)
    from architect_run_after [OF assms, of sm tr spec1 tr1] r Inr obtain tr' where
      "architect_run E sm tr =
          (Inr Done,
           sm\<lparr>next_state := (next_state sm)
                \<lparr>state_specification := spec1
                    \<lparr>spec_system_dependencies :=
                       with_installed (spec_system_dependencies spec1)
                         (exit_statuses E (spec_system_dependencies spec1) tr1)\<rparr>,
                 action := Some ARCHITECTURE_STEP_NAME\<rparr>\<rparr>,
           tr')"
      and "commands tr' = commands tr1
            @ zip (map dep_test (spec_system_dependencies spec1))
                (exit_statuses E (spec_system_dependencies spec1) tr1)"
      and "questions tr' = questions tr1
            @ map install_prompt (filter (\<lambda>d. dep_installed d = Some False)
                (with_installed (spec_system_dependencies spec1)
                   (exit_statuses E (spec_system_dependencies spec1) tr1)))"
      by auto
    with r Inr show ?thesis by simp
  qed
qed

theorem system_dependencies_checked_witness:
  "acknowledges demo_env
   \<and> fst (architect_run demo_env demo_sm []) = Inr Done
   \<and> map (\<lambda>d. (dep_name d, dep_installed d))
        (spec_system_dependencies
           (state_specification (next_state (fst (snd (architect_run demo_env demo_sm []))))))
      = [(Some ''Docker'', Some False), (Some ''Node.js'', Some True)]
   \<and> commands (snd (snd (architect_run demo_env demo_sm []))) =
       [(Some ''docker --version'', 127), (Some ''node --version'', 0)]
   \<and> questions (snd (snd (architect_run demo_env demo_sm []))) =
       [warning_message [''Docker''] None,
        warning_message [''Vue.JS''] (Some WARN_FRAMEWORKS_URL),
        ''Once you have installed Docker, please press Continue.'']"
  using demo_env_acknowledges
    system_dependencies_checked [OF demo_env_acknowledges, of demo_sm "[]"]
  by (simp add: demo_sm_simps demo_env_simps demo_plan with_installed_def model_dump_def
                demo_architecture_simps install_prompt_def py_str_def)

lemma architect_run_example:
  assumes ack: "acknowledges E"
    and ex: "example_project (state_specification (current_state sm)) = Some n" "n \<noteq> []"
    and look: "EXAMPLE_PROJECTS E n = Some b"
  shows "\<exists>codes tr'. length codes = length (ex_system_dependencies b)
      \<and> architect_run E sm tr =
          (Inr Done,
           sm\<lparr>next_state := (next_state sm)
                \<lparr>state_specification := (state_specification (current_state sm))
                    \<lparr>spec_architecture := ex_architecture b,
                     spec_system_dependencies := with_installed (ex_system_dependencies b) codes,
                     spec_package_dependencies := ex_package_dependencies b,
                     spec_template := ex_template b\<rparr>,
                 action := Some ARCHITECTURE_STEP_NAME\<rparr>\<rparr>,
           tr')
      \<and> questions tr' = questions tr
            @ map install_prompt (filter (\<lambda>d. dep_installed d = Some False)
                (with_installed (ex_system_dependencies b) codes))
      \<and> llm_requests tr' = llm_requests tr"
proof -
  let ?spec = "state_specification (current_state sm)"
  let ?spec1 = "?spec\<lparr>spec_architecture := ex_architecture b,
                       spec_system_dependencies := ex_system_dependencies b,
                       spec_package_dependencies := ex_package_dependencies b,
                       spec_template := ex_template b\<rparr>"
  let ?tr1 = "tr @ [SendProjectStage ''architecture'',
                    TelemetrySet ''template'' (opt_str (ex_template b))]"
  have ob: "(if is_example ?spec
              then prepare_example_project E ?spec (tr @ [SendProjectStage ''architecture''])
              else plan_architecture E ?spec (tr @ [SendProjectStage ''architecture''])) =
            (Inr ?spec1, ?tr1)"
    using ex look by (simp add: is_example_def prepare_example_project_def)
  from architect_run_after [OF ack ob] obtain tr' where
    "architect_run E sm tr =
          (Inr Done,
           sm\<lparr>next_state := (next_state sm)
                \<lparr>state_specification := ?spec1
                    \<lparr>spec_system_dependencies :=
                       with_installed (spec_system_dependencies ?spec1)
                         (exit_statuses E (spec_system_dependencies ?spec1) ?tr1)\<rparr>,
                 action := Some ARCHITECTURE_STEP_NAME\<rparr>\<rparr>,
           tr')"
    and "questions tr' = questions ?tr1
            @ map install_prompt (filter (\<lambda>d. dep_installed d = Some False)
                (with_installed (spec_system_dependencies ?spec1)
                   (exit_statuses E (spec_system_dependencies ?spec1) ?tr1)))"
    and "llm_requests tr' = llm_requests ?tr1"
    by blast
  then show ?thesis
    by (intro exI [of _ "exit_statuses E (ex_system_dependencies b) ?tr1"] exI [of _ tr'])
       (simp add: trace_append)
qed

text \<open>
  Claim C6. For a specification marked as an example project the step sends no request to
  the model, whether or not the lookup succeeds; otherwise it sends exactly one, the
  technologies request. \<open>prepare_example_project\<close> copies architecture, system
  dependencies, package dependencies and template from the entry of the example table, and
  the step then returns \<open>Done\<close> with these four fields (the dependency check adding
  \<open>installed\<close>) in the working snapshot.
\<close>

theorem example_project_is_pure_lookup:
  "(is_example (state_specification (current_state sm)) \<longrightarrow>
      llm_requests (snd (snd (architect_run E sm tr))) = llm_requests tr)
   \<and> (\<not> is_example (state_specification (current_state sm)) \<longrightarrow>
      llm_requests (snd (snd (architect_run E sm tr))) =
        llm_requests tr @
          [(technologies_convo E,
            map_sum id AnsArchitecture
              (llm_architecture E
                 (tr @ [SendProjectStage ''architecture'',
                        SendMessage ''Planning project architecture ...''])
                 (technologies_convo E)))])
   \<and> (example_project spec = Some n \<and> EXAMPLE_PROJECTS E n = Some b \<longrightarrow>
      prepare_example_project E spec tr =
        (Inr (spec\<lparr>spec_architecture := ex_architecture b,
                   spec_system_dependencies := ex_system_dependencies b,
                   spec_package_dependencies := ex_package_dependencies b,
                   spec_template := ex_template b\<rparr>),
         tr @ [TelemetrySet ''template'' (opt_str (ex_template b))]))
   \<and> (acknowledges E \<and> example_project (state_specification (current_state sm)) = Some n
        \<and> n \<noteq> [] \<and> EXAMPLE_PROJECTS E n = Some b \<longrightarrow>
      (\<exists>codes tr'. length codes = length (ex_system_dependencies b)
         \<and> architect_run E sm tr =
             (Inr Done,
              sm\<lparr>next_state := (next_state sm)
                   \<lparr>state_specification := (state_specification (current_state sm))
                       \<lparr>spec_architecture := ex_architecture b,
                        spec_system_dependencies := with_installed (ex_system_dependencies b) codes,
                        spec_package_dependencies := ex_package_dependencies b,
                        spec_template := ex_template b\<rparr>,
                    action := Some ARCHITECTURE_STEP_NAME\<rparr>\<rparr>,
              tr')
         \<and> llm_requests tr' = llm_requests tr))"
proof (intro conjI impI)
  assume "is_example (state_specification (current_state sm))"
  then show "llm_requests (snd (snd (architect_run E sm tr))) = llm_requests tr"
    by (rule architect_run_example_llm)
next
  assume "\<not> is_example (state_specification (current_state sm))"
  then show "llm_requests (snd (snd (architect_run E sm tr))) =
        llm_requests tr @
          [(technologies_convo E,
            map_sum id AnsArchitecture
              (llm_architecture E
                 (tr @ [SendProjectStage ''architecture'',
                        SendMessage ''Planning project architecture ...''])
                 (technologies_convo E)))]"
    by (rule architect_run_novel_llm)
next
  assume "example_project spec = Some n \<and> EXAMPLE_PROJECTS E n = Some b"
  then show "prepare_example_project E spec tr =
        (Inr (spec\<lparr>spec_architecture := ex_architecture b,
                   spec_system_dependencies := ex_system_dependencies b,
                   spec_package_dependencies := ex_package_dependencies b,
                   spec_template := ex_template b\<rparr>),
         tr @ [TelemetrySet ''template'' (opt_str (ex_template b))])"
    by (simp add: prepare_example_project_def)
next
  assume a: "acknowledges E \<and> example_project (state_specification (current_state sm)) = Some n
        \<and> n \<noteq> [] \<and> EXAMPLE_PROJECTS E n = Some b"
  from architect_run_example [of E sm n b tr] a
  show "\<exists>codes tr'. length codes = length (ex_system_dependencies b)
         \<and> architect_run E sm tr =
             (Inr Done,
              sm\<lparr>next_state := (next_state sm)
                   \<lparr>state_specification := (state_specification (current_state sm))
                       \<lparr>spec_architecture := ex_architecture b,
                        spec_system_dependencies := with_installed (ex_system_dependencies b) codes,
                        spec_package_dependencies := ex_package_dependencies b,
                        spec_template := ex_template b\<rparr>,
                    action := Some ARCHITECTURE_STEP_NAME\<rparr>\<rparr>,
              tr')
         \<and> llm_requests tr' = llm_requests tr"
    by blast
qed

theorem example_project_is_pure_lookup_witness:
  "is_example (state_specification (current_state example_sm))
   \<and> llm_requests (snd (snd (architect_run demo_env example_sm []))) = []
   \<and> \<not> is_example (state_specification (current_state demo_sm))
   \<and> llm_requests (snd (snd (architect_run demo_env demo_sm []))) =
        [(technologies_convo demo_env, Inr (AnsArchitecture demo_architecture))]
   \<and> acknowledges demo_env
   \<and> example_project (state_specification (current_state example_sm)) = Some ''example''
   \<and> EXAMPLE_PROJECTS demo_env ''example'' = Some demo_bundle
   \<and> (\<exists>codes tr'. length codes = length (ex_system_dependencies demo_bundle)
         \<and> architect_run demo_env example_sm [] =
             (Inr Done,
              example_sm\<lparr>next_state := (next_state example_sm)
                   \<lparr>state_specification := (state_specification (current_state example_sm))
                       \<lparr>spec_architecture := ex_architecture demo_bundle,
                        spec_system_dependencies :=
                          with_installed (ex_system_dependencies demo_bundle) codes,
                        spec_package_dependencies := ex_package_dependencies demo_bundle,
                        spec_template := ex_template demo_bundle\<rparr>,
                    action := Some ARCHITECTURE_STEP_NAME\<rparr>\<rparr>,
              tr')
         \<and> llm_requests tr' = [])"
proof -
  have e: "example_project (state_specification (current_state example_sm)) = Some ''example''"
    by (simp add: demo_sm_simps)
  have l: "EXAMPLE_PROJECTS demo_env ''example'' = Some demo_bundle"
    by (simp add: demo_env_simps)
  show ?thesis
    using example_project_is_pure_lookup
            [of example_sm demo_env "[]" "state_specification (current_state example_sm)"
                "''example''" demo_bundle]
          example_project_is_pure_lookup
            [of demo_sm demo_env "[]" "state_specification (current_state demo_sm)"
                "''example''" demo_bundle]
          demo_env_acknowledges e l
    by (simp add: demo_sm_simps demo_env_simps)
qed

text \<open>
  Claim C10, as stated, fails when the parsed answer holds a dependency without a name:
  computing the names to warn about raises before any prompt, so Docker, declared in the
  same answer, triggers no warning although its lowercased name is on the denylist.
\<close>

theorem nameless_dependency_blocks_warning:
  "system_dependencies nameless_architecture =
     Some [\<lparr>name = None, description = Some ''A database'', test = Some ''mongod --version'',
            required_locally = Some True\<rparr>, docker_dep]
   \<and> name docker_dep = Some ''Docker''
   \<and> str_lower demo_env ''Docker'' \<in> set WARN_SYSTEM_DEPS
   \<and> check_compatibility demo_env nameless_architecture [] =
       (Inl (OtherException ''AttributeError''), [])"
  by (simp add: demo_architecture_simps demo_env_simps lower_char_def WARN_SYSTEM_DEPS_def
                check_compatibility_def warn_system_deps_def)

text \<open>
  Claim C10, amended. For a parsed answer that has both dependency lists and in which
  every dependency has a name, the match ignores case: the system dependencies named in
  the warning are exactly those whose lowercased name is one of \<open>docker\<close>,
  \<open>kubernetes\<close>, \<open>microservices\<close>, the package dependencies exactly those whose
  lowercased name is one of \<open>next.js\<close>, \<open>vue\<close>, \<open>vue.js\<close>, \<open>svelte\<close>, \<open>angular\<close>.
  With an operator who acknowledges, the check asks one question per non-empty group and
  nothing else; when no dependency matches it asks nothing at all.
\<close>

theorem denylist_match_case_insensitive:
  assumes "system_dependencies arch = Some sds" and "map name sds = map Some sn"
    and "package_dependencies arch = Some pds" and "map pkg_name pds = map Some pn"
  shows "warn_system_deps E arch =
           Inr (filter (\<lambda>n. str_lower E n \<in> {''docker'', ''kubernetes'', ''microservices''}) sn)
   \<and> warn_package_deps E arch =
           Inr (filter (\<lambda>n. str_lower E n \<in> {''next.js'', ''vue'', ''vue.js'', ''svelte'', ''angular''}) pn)
   \<and> (acknowledges E \<longrightarrow>
        check_compatibility E arch tr =
          (Inr True,
           tr @ (if \<exists>n \<in> set sn. str_lower E n \<in> {''docker'', ''kubernetes'', ''microservices''}
                 then [AskQuestion
                         (warning_message
                            (filter (\<lambda>n. str_lower E n \<in> {''docker'', ''kubernetes'', ''microservices''}) sn)
                            None)]
                 else [])
              @ (if \<exists>n \<in> set pn. str_lower E n \<in> {''next.js'', ''vue'', ''vue.js'', ''svelte'', ''angular''}
                 then [AskQuestion
                         (warning_message
                            (filter (\<lambda>n. str_lower E n
                                       \<in> {''next.js'', ''vue'', ''vue.js'', ''svelte'', ''angular''}) pn)
                            (Some WARN_FRAMEWORKS_URL))]
                 else [])))
   \<and> ((\<forall>n \<in> set sn. str_lower E n \<notin> {''docker'', ''kubernetes'', ''microservices''})
      \<and> (\<forall>n \<in> set pn. str_lower E n \<notin> {''next.js'', ''vue'', ''vue.js'', ''svelte'', ''angular''})
      \<longrightarrow> check_compatibility E arch tr = (Inr True, tr))"
proof -
  let ?S = "{''docker'', ''kubernetes'', ''microservices''}"
  let ?F = "{''next.js'', ''vue'', ''vue.js'', ''svelte'', ''angular''}"
  have s: "set WARN_SYSTEM_DEPS = ?S"
    by (simp add: WARN_SYSTEM_DEPS_def)
  have f: "set WARN_FRAMEWORKS = ?F"
    by (simp add: WARN_FRAMEWORKS_def)
  have ws: "warn_system_deps E arch = Inr (filter (\<lambda>n. str_lower E n \<in> ?S) sn)"
    using assms(1,2) by (simp add: warn_system_deps_def warn_names_named s)
  have wp: "warn_package_deps E arch = Inr (filter (\<lambda>n. str_lower E n \<in> ?F) pn)"
    using assms(3,4) by (simp add: warn_package_deps_def warn_names_named f)
  have es: "filter (\<lambda>n. str_lower E n \<in> ?S) sn \<noteq> [] \<longleftrightarrow> (\<exists>n \<in> set sn. str_lower E n \<in> ?S)"
    by (simp only: filter_empty_conv) blast
  have ep: "filter (\<lambda>n. str_lower E n \<in> ?F) pn \<noteq> [] \<longleftrightarrow> (\<exists>n \<in> set pn. str_lower E n \<in> ?F)"
    by (simp only: filter_empty_conv) blast
  have 3: "acknowledges E \<longrightarrow>
        check_compatibility E arch tr =
          (Inr True,
           tr @ (if \<exists>n \<in> set sn. str_lower E n \<in> ?S
                 then [AskQuestion (warning_message (filter (\<lambda>n. str_lower E n \<in> ?S) sn) None)]
                 else [])
              @ (if \<exists>n \<in> set pn. str_lower E n \<in> ?F
                 then [AskQuestion (warning_message (filter (\<lambda>n. str_lower E n \<in> ?F) pn)
                                      (Some WARN_FRAMEWORKS_URL))]
                 else []))"
    unfolding es [symmetric] ep [symmetric]
    using check_compatibility_ack [OF _ ws wp, of tr] by blast
  have 4: "(\<forall>n \<in> set sn. str_lower E n \<notin> ?S) \<and> (\<forall>n \<in> set pn. str_lower E n \<notin> ?F)
      \<longrightarrow> check_compatibility E arch tr = (Inr True, tr)"
  proof
    assume a: "(\<forall>n \<in> set sn. str_lower E n \<notin> ?S) \<and> (\<forall>n \<in> set pn. str_lower E n \<notin> ?F)"
    then have "filter (\<lambda>n. str_lower E n \<in> ?S) sn = []" "filter (\<lambda>n. str_lower E n \<in> ?F) pn = []"
      using es ep by blast+
    with ws wp show "check_compatibility E arch tr = (Inr True, tr)"
      by (simp only: check_compatibility_none)
  qed
  from ws wp 3 4 show ?thesis by blast
qed

theorem denylist_match_case_insensitive_witness:
  "system_dependencies demo_architecture = Some [docker_dep, node_dep]
   \<and> map name [docker_dep, node_dep] = map Some [''Docker'', ''Node.js'']
   \<and> package_dependencies demo_architecture =
       Some [\<lparr>pkg_name = Some ''Vue.JS'', pkg_description = Some ''Frontend framework''\<rparr>,
             \<lparr>pkg_name = Some ''express'', pkg_description = Some ''Web server''\<rparr>]
   \<and> map pkg_name [\<lparr>pkg_name = Some ''Vue.JS'', pkg_description = Some ''Frontend framework''\<rparr>,
                    \<lparr>pkg_name = Some ''express'', pkg_description = Some ''Web server''\<rparr>]
       = map Some [''Vue.JS'', ''express'']
   \<and> acknowledges demo_env
   \<and> warn_system_deps demo_env demo_architecture = Inr [''Docker'']
   \<and> warn_package_deps demo_env demo_architecture = Inr [''Vue.JS'']
   \<and> check_compatibility demo_env demo_architecture [] =
        (Inr True,
         [AskQuestion (warning_message [''Docker''] None),
          AskQuestion (warning_message [''Vue.JS''] (Some WARN_FRAMEWORKS_URL))])"
proof -
  have 1: "system_dependencies demo_architecture = Some [docker_dep, node_dep]"
    and 2: "map name [docker_dep, node_dep] = map Some [''Docker'', ''Node.js'']"
    and 3: "package_dependencies demo_architecture =
       Some [\<lparr>pkg_name = Some ''Vue.JS'', pkg_description = Some ''Frontend framework''\<rparr>,
             \<lparr>pkg_name = Some ''express'', pkg_description = Some ''Web server''\<rparr>]"
    and 4: "map pkg_name [\<lparr>pkg_name = Some ''Vue.JS'', pkg_description = Some ''Frontend framework''\<rparr>,
                    \<lparr>pkg_name = Some ''express'', pkg_description = Some ''Web server''\<rparr>]
       = map Some [''Vue.JS'', ''express'']"
    by (simp_all add: demo_architecture_simps)
  from denylist_match_case_insensitive [OF 1 2 3 4, of demo_env "[]"] demo_env_acknowledges 1 2 3 4
  show ?thesis
    by (simp add: demo_env_simps lower_char_def)
qed




section \<open>Properties of the file-description step\<close>

lemma describe_path_convo [simp]: "describe_path (describe_convo p c) = Some p"
  by (simp add: describe_convo_def)

lemma foldl_upd_other:
  "p \<notin> path ` set gs \<Longrightarrow> foldl (\<lambda>m file. m(path file \<mapsto> content file)) m gs p = m p"
  by (induction gs arbitrary: m) auto

lemma foldl_upd_distinct:
  "distinct (map path gs) \<Longrightarrow> g \<in> set gs \<Longrightarrow>
   foldl (\<lambda>m file. m(path file \<mapsto> content file)) m gs (path g) = Some (content g)"
proof (induction gs arbitrary: m)
  case Nil
  then show ?case by simp
next
  case (Cons a gs)
  show ?case
  proof (cases "g = a")
    case True
    with Cons.prems have n: "path a \<notin> path ` set gs" by auto
    have "foldl (\<lambda>m file. m(path file \<mapsto> content file)) m (a # gs) (path a) =
          foldl (\<lambda>m file. m(path file \<mapsto> content file)) (m(path a \<mapsto> content a)) gs (path a)"
      by (simp only: foldl_Cons)
    also have "\<dots> = (m(path a \<mapsto> content a)) (path a)"
      by (rule foldl_upd_other [OF n])
    also have "\<dots> = Some (content a)"
      by simp
    finally show ?thesis
      unfolding True .
  next
    case False
    with Cons show ?thesis by auto
  qed
qed

lemma to_describe_distinct:
  assumes d: "distinct (map path fs)" and f: "f \<in> set fs"
  shows "to_describe fs (path f) = (if lacks_description f then Some (content f) else None)"
proof (cases "lacks_description f")
  case True
  have "distinct (map path (filter lacks_description fs))"
    using d by (rule distinct_map_filter)
  moreover have "f \<in> set (filter lacks_description fs)" using f True by simp
  ultimately show ?thesis
    using True by (simp add: to_describe_def foldl_upd_distinct)
next
  case False
  have "path f \<notin> path ` set (filter lacks_description fs)"
  proof
    assume "path f \<in> path ` set (filter lacks_description fs)"
    then obtain g where g: "g \<in> set fs" "lacks_description g" "path g = path f" by auto
    from d have "inj_on path (set fs)" by (simp add: distinct_map)
    with g f have "g = f" by (auto dest: inj_onD)
    with g False show False by simp
  qed
  then show ?thesis
    using False by (simp add: to_describe_def foldl_upd_other)
qed

lemma describe_loop_frame:
  "describe_loop E td fs tr = (r, fs', tr') \<Longrightarrow>
   map path fs' = map path fs \<and> map content fs' = map content fs"
proof (induction fs arbitrary: tr r fs' tr')
  case Nil
  then show ?case by simp
next
  case (Cons g fs)
  show ?case
  proof (cases "td (path g)")
    case None
    with Cons.prems obtain fs1 where "describe_loop E td fs tr = (r, fs1, tr')" "fs' = g # fs1"
      by (auto split: prod.splits)
    with Cons.IH show ?thesis by auto
  next
    case (Some c)
    show ?thesis
    proof (cases "c = []")
      case True
      with Some Cons.prems obtain fs1 where
        "describe_loop E td fs tr = (r, fs1, tr')" "fs' = g\<lparr>meta := empty_file_meta (meta g)\<rparr> # fs1"
        by (auto split: prod.splits)
      with Cons.IH show ?thesis by auto
    next
      case False
      let ?tr1 = "send_message (''Describing file '' @ path g @ '' ...'') tr"
      show ?thesis
      proof (cases "llm_describe E ?tr1 (describe_convo (path g) c)")
        case (Inl e)
        with Some False Cons.prems show ?thesis by (simp add: Let_def)
      next
        case (Inr a)
        with Some False Cons.prems obtain fs1 where
          "describe_loop E td fs
             (?tr1 @ [LLMRequest (describe_convo (path g) c) (Inr (AnsFileDescription a))]) = (r, fs1, tr')"
          "fs' = g\<lparr>meta := described_meta (meta g) a\<rparr> # fs1"
          by (auto simp: Let_def split: prod.splits)
        with Cons.IH show ?thesis by auto
      qed
    qed
  qed
qed

lemma describe_faithful_append:
  "describe_faithful E pre (a @ b) = (describe_faithful E pre a \<and> describe_faithful E (pre @ a) b)"
  by (induction E pre a rule: describe_faithful.induct) simp_all

lemma described_as_mono:
  "list_all2 (described_as td ys) a b \<Longrightarrow> list_all2 (described_as td (xs @ ys)) a b"
  by (erule list_all2_mono) (auto simp: described_as_def split: option.splits if_splits)

lemma describe_loop_done:
  "describe_loop E td fs tr = (None, fs', tr') \<Longrightarrow>
   \<exists>ext. tr' = tr @ ext \<and> describe_faithful E tr ext
     \<and> map fst (llm_requests ext) = pending_convos td fs
     \<and> list_all2 (described_as td (llm_requests ext)) fs fs'"
proof (induction fs arbitrary: tr fs' tr')
  case Nil
  then show ?case by (simp add: pending_convos_def)
next
  case (Cons g fs)
  show ?case
  proof (cases "td (path g)")
    case None
    with Cons.prems obtain fs1 where
      rec: "describe_loop E td fs tr = (None, fs1, tr')" and fs': "fs' = g # fs1"
      by (auto split: prod.splits)
    from Cons.IH [OF rec] obtain ext where
      "tr' = tr @ ext" "describe_faithful E tr ext"
      "map fst (llm_requests ext) = pending_convos td fs"
      "list_all2 (described_as td (llm_requests ext)) fs fs1" by blast
    moreover have "described_as td (llm_requests ext) g g"
      using None by (simp add: described_as_def)
    ultimately show ?thesis
      using None fs' by (intro exI [of _ ext]) (simp add: pending_convos_def pending_def)
  next
    case (Some c)
    show ?thesis
    proof (cases "c = []")
      case True
      with Some Cons.prems obtain fs1 where
        rec: "describe_loop E td fs tr = (None, fs1, tr')"
        and fs': "fs' = g\<lparr>meta := empty_file_meta (meta g)\<rparr> # fs1"
        by (auto split: prod.splits)
      from Cons.IH [OF rec] obtain ext where
        "tr' = tr @ ext" "describe_faithful E tr ext"
        "map fst (llm_requests ext) = pending_convos td fs"
        "list_all2 (described_as td (llm_requests ext)) fs fs1" by blast
      moreover have "described_as td (llm_requests ext) g (g\<lparr>meta := empty_file_meta (meta g)\<rparr>)"
        using Some True by (simp add: described_as_def)
      ultimately show ?thesis
        using Some True fs'
        by (intro exI [of _ ext]) (simp add: pending_convos_def pending_def)
    next
      case False
      let ?m = "SendMessage (''Describing file '' @ path g @ '' ...'')"
      let ?cv = "describe_convo (path g) c"
      show ?thesis
      proof (cases "llm_describe E (tr @ [?m]) ?cv")
        case (Inl e)
        with Some False Cons.prems show ?thesis by (simp add: Let_def send_message_def)
      next
        case (Inr a)
        let ?rq = "LLMRequest ?cv (Inr (AnsFileDescription a))"
        from Inr Some False Cons.prems obtain fs1 where
          rec: "describe_loop E td fs (tr @ [?m, ?rq]) = (None, fs1, tr')"
          and fs': "fs' = g\<lparr>meta := described_meta (meta g) a\<rparr> # fs1"
          by (auto simp: Let_def send_message_def split: prod.splits)
        from Cons.IH [OF rec] obtain ext where
          t: "tr' = (tr @ [?m, ?rq]) @ ext"
          and f: "describe_faithful E (tr @ [?m, ?rq]) ext"
          and m: "map fst (llm_requests ext) = pending_convos td fs"
          and a: "list_all2 (described_as td (llm_requests ext)) fs fs1" by blast
        have l: "list_all2 (described_as td (llm_requests ([?m, ?rq] @ ext))) fs fs1"
          using described_as_mono [OF a, of "[(?cv, Inr (AnsFileDescription a))]"] by simp
        have g: "described_as td (llm_requests ([?m, ?rq] @ ext)) g
                         (g\<lparr>meta := described_meta (meta g) a\<rparr>)"
          using Some False by (auto simp: described_as_def)
        have ff: "describe_faithful E tr ([?m, ?rq] @ ext)"
          using f Inr by (simp add: describe_faithful_append)
        have t': "tr' = tr @ ([?m, ?rq] @ ext)" using t by simp
        have m': "map fst (llm_requests ([?m, ?rq] @ ext)) = pending_convos td (g # fs)"
          using m Some False by (simp add: pending_convos_def pending_def)
        have l': "list_all2 (described_as td (llm_requests ([?m, ?rq] @ ext))) (g # fs) fs'"
          using l g fs' by simp
        from t' ff m' l' show ?thesis by blast
      qed
    qed
  qed
qed

lemma describe_faithful_request:
  "describe_faithful E pre ext \<Longrightarrow> (cv, a) \<in> set (llm_requests ext) \<Longrightarrow>
   \<exists>e1 e2. ext = e1 @ LLMRequest cv a # e2
     \<and> a = map_sum id AnsFileDescription (llm_describe E (pre @ e1) cv)"
proof (induction E pre ext rule: describe_faithful.induct)
  case (1 E pre)
  then show ?case by simp
next
  case (2 E pre cv' a' es)
  show ?case
  proof (cases "(cv, a) = (cv', a')")
    case True
    with "2.prems" show ?thesis
      by - (rule exI [of _ "[]"], rule exI [of _ es], simp add: id_def)
  next
    case False
    with "2.prems" have mem: "(cv, a) \<in> set (llm_requests es)" by auto
    from "2.prems"(1) have f: "describe_faithful E (pre @ [LLMRequest cv' a']) es"
      unfolding describe_faithful.simps by blast
    from "2.IH" [OF f mem] obtain e1 e2 where
      "es = e1 @ LLMRequest cv a # e2"
      "a = map_sum id AnsFileDescription (llm_describe E ((pre @ [LLMRequest cv' a']) @ e1) cv)"
      by blast
    then show ?thesis
      by - (rule exI [of _ "LLMRequest cv' a' # e1"], rule exI [of _ e2], simp add: id_def)
  qed
qed (auto, (metis append_Cons)+)

lemma describe_loop_answers:
  "\<forall>tr c. \<exists>r. llm_describe E tr c = Inr r \<Longrightarrow> fst (describe_loop E td fs tr) = None"
proof (induction fs arbitrary: tr)
  case Nil
  show ?case by simp
next
  case (Cons g fs)
  have a: "\<And>t c. \<exists>r. llm_describe E t c = Inr r" using Cons.prems by blast
  show ?case
  proof (cases "td (path g)")
    case None
    with Cons.IH [OF Cons.prems] show ?thesis by (simp add: case_prod_beta)
  next
    case (Some c)
    obtain r where "llm_describe E (send_message (''Describing file '' @ path g @ '' ...'') tr)
                      (describe_convo (path g) c) = Inr r"
      using a by blast
    with Some Cons.IH [OF Cons.prems] show ?thesis by (simp add: case_prod_beta Let_def)
  qed
qed

lemma pending_convos_other:
  "\<forall>g \<in> set fs. path g = p \<longrightarrow> \<not> pending td g \<Longrightarrow>
   filter (\<lambda>c. describe_path c = Some p) (pending_convos td fs) = []"
  by (induction fs) (auto simp: pending_convos_def)

lemma pending_convos_once:
  "distinct (map path fs) \<Longrightarrow> g \<in> set fs \<Longrightarrow> pending td g \<Longrightarrow>
   filter (\<lambda>c. describe_path c = Some (path g)) (pending_convos td fs) =
     [describe_convo (path g) (the (td (path g)))]"
proof (induction fs)
  case Nil
  then show ?case by simp
next
  case (Cons a fs)
  show ?case
  proof (cases "g = a")
    case True
    from Cons.prems have "path a \<notin> path ` set fs" by simp
    then have "\<forall>h \<in> set fs. path h = path a \<longrightarrow> \<not> pending td h"
      by (auto simp: image_iff)
    from pending_convos_other [OF this] True Cons.prems show ?thesis
      by (simp add: pending_convos_def)
  next
    case False
    with Cons.prems have "g \<in> set fs" "path a \<noteq> path g" by auto
    with Cons show ?thesis by (simp add: pending_convos_def)
  qed
qed

lemma requests_for_path:
  "map fst reqs = cs \<Longrightarrow>
   map fst (filter (\<lambda>(c, a). describe_path c = Some p) reqs) = filter (\<lambda>c. describe_path c = Some p) cs"
  by (induction reqs arbitrary: cs) auto

lemma describe_files_done:
  assumes "describe_files E sm tr = (Inr Done, sm', tr')"
  shows "\<exists>ext. tr' = tr @ ext \<and> describe_faithful E tr ext
     \<and> map fst (llm_requests ext) =
         pending_convos (to_describe (files (current_state sm))) (files (next_state sm))
     \<and> list_all2 (described_as (to_describe (files (current_state sm))) (llm_requests ext))
          (files (next_state sm)) (files (next_state sm'))"
proof -
  let ?td = "to_describe (files (current_state sm))"
  obtain r fs' t where loop: "describe_loop E ?td (files (next_state sm)) tr = (r, fs', t)"
    by (cases "describe_loop E ?td (files (next_state sm)) tr") auto
  with assms have "r = None" "files (next_state sm') = fs'" "tr' = t"
    by (auto simp: describe_files_def split: option.splits)
  with describe_loop_done [of E ?td "files (next_state sm)" tr fs' t] loop
  show ?thesis by simp
qed

lemma describe_files_answers:
  "\<forall>t c. \<exists>r. llm_describe E t c = Inr r \<Longrightarrow> fst (describe_files E sm tr) = Inr Done"
  using describe_loop_answers [of E "to_describe (files (current_state sm))" "files (next_state sm)" tr]
  by (simp add: describe_files_def case_prod_beta)

lemma describe_files_run:
  "fst (describe_files E sm tr) = Inr Done \<Longrightarrow>
   describe_files E sm tr =
     (Inr Done, fst (snd (describe_files E sm tr)), snd (snd (describe_files E sm tr)))"
  by (simp add: prod_eq_iff)

section \<open>Claims about the file-description step\<close>

lemma demo_env_describes: "\<forall>t c. \<exists>r. llm_describe demo_env t c = Inr r"
  by (simp add: demo_env_def)

lemma demo_env_llm_describe:
  "llm_describe demo_env t c = Inr \<lparr>summary = ''A module'', references = [''util.py'']\<rparr>"
  by (simp add: demo_env_def)

lemma files_sm_simps:
  "files (current_state files_sm) = [app_py, util_py, done_py]"
  "files (next_state files_sm) = [app_py, util_py, done_py]"
  by (simp_all add: files_sm_def)

lemma demo_files_simps:
  "path app_py = ''app.py''" "path util_py = ''util.py''" "path done_py = ''done.py''"
  "content app_py = []" "content util_py = ''x = 1''" "content done_py = ''y = 2''"
  "lacks_description app_py" "lacks_description util_py" "\<not> lacks_description done_py"
  by (simp_all add: app_py_def util_py_def done_py_def lacks_description_def)

lemma files_sm_run:
  "describe_files demo_env files_sm [] =
     (Inr Done, fst (snd (describe_files demo_env files_sm [])),
      snd (snd (describe_files demo_env files_sm [])))"
  by (rule describe_files_run [OF describe_files_answers [OF demo_env_describes]])

text \<open>
  Claim C3. Paths identify the files of the committed snapshot. When the step returns
  done (no model request raised), a file of the committed snapshot that lacks a
  description and whose content is the empty string has, in the working snapshot, the
  metadata of before with \<^verbatim>\<open>description\<close> set to \<^verbatim>\<open>"Empty file"\<close> and \<^verbatim>\<open>references\<close> set to the
  empty list: every other key keeps its value. The trace of the step extends the trace
  before it, and no model request in the extension is about that file's path.
\<close>

theorem empty_file_described_without_model:
  assumes run: "describe_files E sm tr = (Inr Done, sm', tr')"
    and dc: "distinct (map path (files (current_state sm)))"
    and f: "f \<in> set (files (current_state sm))" "lacks_description f" "content f = []"
    and i: "i < length (files (next_state sm))" "path (files (next_state sm) ! i) = path f"
  shows "files (next_state sm') ! i =
           (files (next_state sm) ! i)
             \<lparr>meta := (meta (files (next_state sm) ! i))
                (''description'' \<mapsto> PStr ''Empty file'', ''references'' \<mapsto> PList [])\<rparr>
       \<and> (\<forall>k. k \<noteq> ''description'' \<and> k \<noteq> ''references'' \<longrightarrow>
              meta (files (next_state sm') ! i) k = meta (files (next_state sm) ! i) k)
       \<and> take (length tr) tr' = tr
       \<and> filter (\<lambda>(c, a). describe_path c = Some (path f))
            (llm_requests (drop (length tr) tr')) = []"
proof -
  let ?td = "to_describe (files (current_state sm))"
  let ?g = "files (next_state sm) ! i"
  from describe_files_done [OF run] obtain ext where
    l: "tr' = tr @ ext"
    and m: "map fst (llm_requests ext) = pending_convos ?td (files (next_state sm))"
    and a: "list_all2 (described_as ?td (llm_requests ext))
              (files (next_state sm)) (files (next_state sm'))"
    by blast
  have td: "?td (path f) = Some []"
    using to_describe_distinct [OF dc f(1)] f by simp
  from a i have "described_as ?td (llm_requests ext) ?g (files (next_state sm') ! i)"
    by (simp add: list_all2_nthD)
  with td i have 1: "files (next_state sm') ! i = ?g\<lparr>meta := empty_file_meta (meta ?g)\<rparr>"
    by (simp add: described_as_def)
  have "\<forall>g \<in> set (files (next_state sm)). path g = path f \<longrightarrow> \<not> pending ?td g"
    using td by (simp add: pending_def)
  from pending_convos_other [OF this] requests_for_path [OF m, of "path f"]
  have 2: "filter (\<lambda>(c, a). describe_path c = Some (path f)) (llm_requests ext) = []"
    by simp
  from 1 2 l show ?thesis
    by (auto simp: empty_file_meta_def)
qed

theorem empty_file_described_without_model_witness:
  "describe_files demo_env files_sm [] =
     (Inr Done, fst (snd (describe_files demo_env files_sm [])),
      snd (snd (describe_files demo_env files_sm [])))
   \<and> distinct (map path (files (current_state files_sm)))
   \<and> app_py \<in> set (files (current_state files_sm))
   \<and> lacks_description app_py \<and> content app_py = []
   \<and> (0::nat) < length (files (next_state files_sm))
   \<and> path (files (next_state files_sm) ! 0) = path app_py
   \<and> files (next_state (fst (snd (describe_files demo_env files_sm [])))) ! 0 =
       app_py\<lparr>meta := [''description'' \<mapsto> PStr ''Empty file'', ''references'' \<mapsto> PList []]\<rparr>
   \<and> filter (\<lambda>(c, a). describe_path c = Some ''app.py'')
        (llm_requests (snd (snd (describe_files demo_env files_sm [])))) = []"
proof -
  have d: "distinct (map path (files (current_state files_sm)))"
    by (simp add: files_sm_simps demo_files_simps)
  have f: "app_py \<in> set (files (current_state files_sm))"
    by (simp add: files_sm_simps)
  have i: "(0::nat) < length (files (next_state files_sm))"
          "path (files (next_state files_sm) ! 0) = path app_py"
    by (simp_all add: files_sm_simps)
  have m: "meta app_py = Map.empty" by (simp add: app_py_def)
  from empty_file_described_without_model
         [OF files_sm_run d f demo_files_simps(7) demo_files_simps(4) i]
  show ?thesis
    using files_sm_run d f i demo_files_simps(7) demo_files_simps(4) m
    by (simp add: files_sm_simps demo_files_simps(1))
qed

text \<open>
  Claim C5. Whatever the outcome of the step, the files of the working snapshot keep
  their order, their paths and their contents, and nothing of the working snapshot but
  its files is written. When the describing model answers every request, the step returns
  the one response done; and when it returns done, every file of the working snapshot that
  was to be described has a description and a reference list.
\<close>

theorem describe_files_writes_metadata_only:
  "list_all2 (\<lambda>g g'. path g' = path g \<and> content g' = content g)
     (files (next_state sm)) (files (next_state (fst (snd (describe_files E sm tr)))))
   \<and> next_state (fst (snd (describe_files E sm tr))) =
       (next_state sm)\<lparr>files := files (next_state (fst (snd (describe_files E sm tr))))\<rparr>
   \<and> ((\<forall>t c. \<exists>r. llm_describe E t c = Inr r) \<longrightarrow> fst (describe_files E sm tr) = Inr Done)
   \<and> (fst (describe_files E sm tr) = Inr Done \<longrightarrow>
        (\<forall>i < length (files (next_state sm)).
           to_describe (files (current_state sm)) (path (files (next_state sm) ! i)) \<noteq> None \<longrightarrow>
           meta (files (next_state (fst (snd (describe_files E sm tr)))) ! i) ''description'' \<noteq> None
           \<and> meta (files (next_state (fst (snd (describe_files E sm tr)))) ! i) ''references'' \<noteq> None))"
proof -
  let ?td = "to_describe (files (current_state sm))"
  obtain r fs' t where loop: "describe_loop E ?td (files (next_state sm)) tr = (r, fs', t)"
    by (cases "describe_loop E ?td (files (next_state sm)) tr") auto
  have res: "fst (snd (describe_files E sm tr)) = sm\<lparr>next_state := (next_state sm)\<lparr>files := fs'\<rparr>\<rparr>"
    using loop by (simp add: describe_files_def split: option.splits)
  have fr: "map path fs' = map path (files (next_state sm))"
           "map content fs' = map content (files (next_state sm))"
    using describe_loop_frame [OF loop] by simp_all
  have len: "length fs' = length (files (next_state sm))"
    using fr(1) by (metis length_map)
  have 1: "list_all2 (\<lambda>g g'. path g' = path g \<and> content g' = content g) (files (next_state sm)) fs'"
  proof (rule list_all2_all_nthI)
    show "length (files (next_state sm)) = length fs'" using len by simp
  next
    fix n assume n: "n < length (files (next_state sm))"
    have "map path fs' ! n = map path (files (next_state sm)) ! n"
         "map content fs' ! n = map content (files (next_state sm)) ! n"
      using fr by simp_all
    with n len show "path (fs' ! n) = path (files (next_state sm) ! n)
                     \<and> content (fs' ! n) = content (files (next_state sm) ! n)"
      by simp
  qed
  have 4: "(\<forall>t c. \<exists>r. llm_describe E t c = Inr r) \<longrightarrow> fst (describe_files E sm tr) = Inr Done"
  proof
    assume "\<forall>t c. \<exists>r. llm_describe E t c = Inr r"
    from describe_loop_answers [OF this, of ?td "files (next_state sm)" tr] loop
    show "fst (describe_files E sm tr) = Inr Done"
      by (simp add: describe_files_def)
  qed
  have 5: "fst (describe_files E sm tr) = Inr Done \<longrightarrow>
        (\<forall>i < length (files (next_state sm)).
           ?td (path (files (next_state sm) ! i)) \<noteq> None \<longrightarrow>
           meta (fs' ! i) ''description'' \<noteq> None \<and> meta (fs' ! i) ''references'' \<noteq> None)"
  proof (intro impI allI)
    fix i
    assume d: "fst (describe_files E sm tr) = Inr Done"
      and i: "i < length (files (next_state sm))"
      and p: "?td (path (files (next_state sm) ! i)) \<noteq> None"
    from d loop have "r = None"
      by (auto simp: describe_files_def split: option.splits)
    with describe_loop_done [of E ?td "files (next_state sm)" tr fs' t] loop obtain ext where
      "list_all2 (described_as ?td (llm_requests ext)) (files (next_state sm)) fs'" by auto
    with i have "described_as ?td (llm_requests ext) (files (next_state sm) ! i) (fs' ! i)"
      by (simp add: list_all2_nthD)
    with p show "meta (fs' ! i) ''description'' \<noteq> None \<and> meta (fs' ! i) ''references'' \<noteq> None"
      by (auto simp: described_as_def empty_file_meta_def described_meta_def split: if_splits)
  qed
  from 1 4 5 show ?thesis
    by (simp add: res)
qed

theorem describe_files_writes_metadata_only_witness:
  "(\<forall>t c. \<exists>r. llm_describe demo_env t c = Inr r)
   \<and> fst (describe_files demo_env files_sm []) = Inr Done
   \<and> list_all2 (\<lambda>g g'. path g' = path g \<and> content g' = content g)
        [app_py, util_py, done_py]
        (files (next_state (fst (snd (describe_files demo_env files_sm [])))))
   \<and> (1::nat) < length (files (next_state files_sm))
   \<and> to_describe (files (current_state files_sm)) (path (files (next_state files_sm) ! 1)) \<noteq> None
   \<and> meta (files (next_state (fst (snd (describe_files demo_env files_sm [])))) ! 1)
        ''description'' \<noteq> None
   \<and> meta (files (next_state (fst (snd (describe_files demo_env files_sm [])))) ! 1)
        ''references'' \<noteq> None"
proof -
  have t: "to_describe (files (current_state files_sm)) (path (files (next_state files_sm) ! 1)) \<noteq> None"
    by (simp add: files_sm_simps to_describe_def demo_files_simps)
  have n: "(1::nat) < length (files (next_state files_sm))"
    by (simp add: files_sm_simps)
  from describe_files_writes_metadata_only [of files_sm demo_env "[]"] demo_env_describes t n
  show ?thesis
    by (simp add: files_sm_simps)
qed

text \<open>
  Claim C8. Paths identify the files of each snapshot, and the step returns done (no model
  request raised). The model requests of the step are, in order, those of the files of the
  working snapshot that are to be described and are not empty. For a file of the committed
  snapshot that has a description, the file of that path in the working snapshot is
  unchanged and no request is about it. For one that lacks a description and is not empty,
  exactly one request of the step is about it; it carries the file's path and content,
  what came back is what the describing model answers to it on the trace up to the
  request, and the summary and the references of that answer are written into the metadata
  of the file of that path in the working snapshot.
\<close>

theorem only_undescribed_files_are_processed:
  assumes run: "describe_files E sm tr = (Inr Done, sm', tr')"
    and dc: "distinct (map path (files (current_state sm)))"
    and dn: "distinct (map path (files (next_state sm)))"
    and f: "f \<in> set (files (current_state sm))"
    and i: "i < length (files (next_state sm))" "path (files (next_state sm) ! i) = path f"
  shows "take (length tr) tr' = tr
      \<and> map fst (llm_requests (drop (length tr) tr')) =
          pending_convos (to_describe (files (current_state sm))) (files (next_state sm))
      \<and> (\<not> lacks_description f \<longrightarrow>
            files (next_state sm') ! i = files (next_state sm) ! i
            \<and> filter (\<lambda>(c, a). describe_path c = Some (path f))
                 (llm_requests (drop (length tr) tr')) = [])
      \<and> (lacks_description f \<and> content f \<noteq> [] \<longrightarrow>
            (\<exists>e1 e2 r.
               tr' = tr @ e1 @ LLMRequest (describe_convo (path f) (content f))
                                  (Inr (AnsFileDescription r)) # e2
               \<and> llm_describe E (tr @ e1) (describe_convo (path f) (content f)) = Inr r
               \<and> filter (\<lambda>(c, a). describe_path c = Some (path f))
                    (llm_requests (drop (length tr) tr')) =
                    [(describe_convo (path f) (content f), Inr (AnsFileDescription r))]
               \<and> files (next_state sm') ! i =
                   (files (next_state sm) ! i)
                     \<lparr>meta := (meta (files (next_state sm) ! i))
                        (''description'' \<mapsto> PStr (summary r),
                         ''references'' \<mapsto> PList (map PStr (references r)))\<rparr>))"
proof -
  let ?td = "to_describe (files (current_state sm))"
  let ?g = "files (next_state sm) ! i"
  let ?P = "\<lambda>(c, a). describe_path c = Some (path f)"
  let ?cv = "describe_convo (path f) (content f)"
  from describe_files_done [OF run] obtain ext where
    l: "tr' = tr @ ext"
    and ff: "describe_faithful E tr ext"
    and m: "map fst (llm_requests ext) = pending_convos ?td (files (next_state sm))"
    and a: "list_all2 (described_as ?td (llm_requests ext))
              (files (next_state sm)) (files (next_state sm'))"
    by blast
  have td: "?td (path f) = (if lacks_description f then Some (content f) else None)"
    by (rule to_describe_distinct [OF dc f])
  from a i have d: "described_as ?td (llm_requests ext) ?g (files (next_state sm') ! i)"
    by (simp add: list_all2_nthD)
  have g: "?g \<in> set (files (next_state sm))" using i by simp
  have 1: "\<not> lacks_description f \<longrightarrow>
            files (next_state sm') ! i = ?g \<and> filter ?P (llm_requests ext) = []"
  proof
    assume n: "\<not> lacks_description f"
    with td have t: "?td (path f) = None" by simp
    then have "\<forall>h \<in> set (files (next_state sm)). path h = path f \<longrightarrow> \<not> pending ?td h"
      by (simp add: pending_def)
    from pending_convos_other [OF this] requests_for_path [OF m, of "path f"]
    have "filter ?P (llm_requests ext) = []" by simp
    moreover from d t i have "files (next_state sm') ! i = ?g"
      by (simp add: described_as_def)
    ultimately show "files (next_state sm') ! i = ?g \<and> filter ?P (llm_requests ext) = []"
      by simp
  qed
  have 2: "lacks_description f \<and> content f \<noteq> [] \<longrightarrow>
            (\<exists>e1 e2 r. tr' = tr @ e1 @ LLMRequest ?cv (Inr (AnsFileDescription r)) # e2
               \<and> llm_describe E (tr @ e1) ?cv = Inr r
               \<and> filter ?P (llm_requests ext) = [(?cv, Inr (AnsFileDescription r))]
               \<and> files (next_state sm') ! i = ?g\<lparr>meta := described_meta (meta ?g) r\<rparr>)"
  proof
    assume n: "lacks_description f \<and> content f \<noteq> []"
    with td have t: "?td (path ?g) = Some (content f)" using i by simp
    with d n i obtain r where
      r: "(?cv, Inr (AnsFileDescription r)) \<in> set (llm_requests ext)"
      and e: "files (next_state sm') ! i = ?g\<lparr>meta := described_meta (meta ?g) r\<rparr>"
      by (auto simp: described_as_def)
    have p: "pending ?td ?g" using t n by (simp add: pending_def)
    from pending_convos_once [OF dn g p] requests_for_path [OF m, of "path f"] i t
    have mf: "map fst (filter ?P (llm_requests ext)) = [?cv]"
      by simp
    then obtain x where x: "filter ?P (llm_requests ext) = [x]"
      by (cases "filter ?P (llm_requests ext)") auto
    from r have "(?cv, Inr (AnsFileDescription r)) \<in> set (filter ?P (llm_requests ext))"
      by simp
    with x have fl: "filter ?P (llm_requests ext) = [(?cv, Inr (AnsFileDescription r))]"
      by simp
    from describe_faithful_request [OF ff r] obtain e1 e2 where
      ex: "ext = e1 @ LLMRequest ?cv (Inr (AnsFileDescription r)) # e2"
      and an: "Inr (AnsFileDescription r) =
                 map_sum id AnsFileDescription (llm_describe E (tr @ e1) ?cv)"
      by blast
    from an have "llm_describe E (tr @ e1) ?cv = Inr r"
      by (cases "llm_describe E (tr @ e1) ?cv") simp_all
    with ex l fl e show "\<exists>e1 e2 r. tr' = tr @ e1 @ LLMRequest ?cv (Inr (AnsFileDescription r)) # e2
               \<and> llm_describe E (tr @ e1) ?cv = Inr r
               \<and> filter ?P (llm_requests ext) = [(?cv, Inr (AnsFileDescription r))]
               \<and> files (next_state sm') ! i = ?g\<lparr>meta := described_meta (meta ?g) r\<rparr>"
      by blast
  qed
  from l have dr: "drop (length tr) tr' = ext" "take (length tr) tr' = tr" by simp_all
  from m 1 2 show ?thesis
    unfolding described_meta_def dr by blast
qed

theorem only_undescribed_files_are_processed_witness:
  "describe_files demo_env files_sm [] =
     (Inr Done, fst (snd (describe_files demo_env files_sm [])),
      snd (snd (describe_files demo_env files_sm [])))
   \<and> distinct (map path (files (current_state files_sm)))
   \<and> distinct (map path (files (next_state files_sm)))
   \<and> util_py \<in> set (files (current_state files_sm))
   \<and> done_py \<in> set (files (current_state files_sm))
   \<and> lacks_description util_py \<and> content util_py \<noteq> [] \<and> \<not> lacks_description done_py
   \<and> files (next_state (fst (snd (describe_files demo_env files_sm [])))) ! 2 = done_py
   \<and> files (next_state (fst (snd (describe_files demo_env files_sm [])))) ! 1 =
       util_py\<lparr>meta := [''language'' \<mapsto> PStr ''python'', ''description'' \<mapsto> PStr ''A module'',
                        ''references'' \<mapsto> PList [PStr ''util.py'']]\<rparr>
   \<and> filter (\<lambda>(c, a). describe_path c = Some ''util.py'')
        (llm_requests (snd (snd (describe_files demo_env files_sm [])))) =
       [(describe_convo ''util.py'' ''x = 1'',
         Inr (AnsFileDescription \<lparr>summary = ''A module'', references = [''util.py'']\<rparr>))]"
proof -
  let ?sm' = "fst (snd (describe_files demo_env files_sm []))"
  let ?tr' = "snd (snd (describe_files demo_env files_sm []))"
  have dc: "distinct (map path (files (current_state files_sm)))"
    and dn: "distinct (map path (files (next_state files_sm)))"
    by (simp_all add: files_sm_simps demo_files_simps)
  have fu: "util_py \<in> set (files (current_state files_sm))"
    and fd: "done_py \<in> set (files (current_state files_sm))"
    by (simp_all add: files_sm_simps)
  have iu: "(1::nat) < length (files (next_state files_sm))"
           "path (files (next_state files_sm) ! 1) = path util_py"
    and id: "(2::nat) < length (files (next_state files_sm))"
            "path (files (next_state files_sm) ! 2) = path done_py"
    by (simp_all add: files_sm_simps)
  have mu: "meta util_py = [''language'' \<mapsto> PStr ''python'']" by (simp add: util_py_def)
  from only_undescribed_files_are_processed [OF files_sm_run dc dn fu iu]
  obtain e1 e2 r where
    "llm_describe demo_env ([] @ e1) (describe_convo (path util_py) (content util_py)) = Inr r"
    "filter (\<lambda>(c, a). describe_path c = Some (path util_py)) (llm_requests (drop (length ([]::event list)) ?tr')) =
       [(describe_convo (path util_py) (content util_py), Inr (AnsFileDescription r))]"
    "files (next_state ?sm') ! 1 =
       (files (next_state files_sm) ! 1)
         \<lparr>meta := (meta (files (next_state files_sm) ! 1))
            (''description'' \<mapsto> PStr (summary r),
             ''references'' \<mapsto> PList (map PStr (references r)))\<rparr>"
    using demo_files_simps(5,8) by auto
  then have u: "files (next_state ?sm') ! 1 =
       util_py\<lparr>meta := [''language'' \<mapsto> PStr ''python'', ''description'' \<mapsto> PStr ''A module'',
                        ''references'' \<mapsto> PList [PStr ''util.py'']]\<rparr>"
    and q: "filter (\<lambda>(c, a). describe_path c = Some ''util.py'') (llm_requests ?tr') =
       [(describe_convo ''util.py'' ''x = 1'',
         Inr (AnsFileDescription \<lparr>summary = ''A module'', references = [''util.py'']\<rparr>))]"
    using mu by (auto simp: demo_env_llm_describe files_sm_simps demo_files_simps(2,5))
  from only_undescribed_files_are_processed [OF files_sm_run dc dn fd id]
  have d: "files (next_state ?sm') ! 2 = done_py"
    using demo_files_simps(9) by (simp add: files_sm_simps)
  from files_sm_run dc dn fu fd u d q show ?thesis
    by (simp add: demo_files_simps)
qed


section \<open>Claims about implementing a file\<close>

lemma handle_previous_response_attempt:
  "fst (fst (handle_previous_response prev file_name file_content sm tr)) =
     (case prev of Some (CodeReviewFeedback n fb nc ac) \<Rightarrow> n + 1 | _ \<Rightarrow> 1)"
  by (simp add: handle_previous_response_def split: option.splits AgentResponse.splits)

lemma handle_previous_response_feedback:
  "snd (fst (handle_previous_response prev file_name file_content sm tr)) \<noteq> None \<Longrightarrow>
   \<exists>n fb nc ac. prev = Some (CodeReviewFeedback n fb nc ac)"
  by (simp add: handle_previous_response_def split: option.splits AgentResponse.splits)

lemma prepare_conversation_returns:
  "feedback = None \<or> (\<exists>n fb nc ac. prev = Some (CodeReviewFeedback n fb nc ac)) \<Longrightarrow>
   \<exists>convo. prepare_conversation prev file_name file_content instr uf uf_qa feedback = Inr convo"
  by (auto simp: prepare_conversation_def Let_def split: option.splits)

lemma implement_changes_attempt:
  "fst (implement_changes E prev step sm tr) = Inr resp \<Longrightarrow>
   review_attempt resp =
     Some (fst (fst (handle_previous_response prev (the (save_file_path step))
                  (case get_file_by_path sm (the (save_file_path step)) of
                     None \<Rightarrow> [] | Some current_file \<Rightarrow> content current_file) sm tr)))"
  by (auto simp: implement_changes_def Let_def case_prod_beta
           split: option.splits sum.splits)

lemma implement_changes_returns:
  assumes p: "save_file_path step = Some file_name"
    and t: "current_task (current_state sm) = Some t" "instructions t = Some i"
    and d: "iterations (current_state sm) \<noteq> [] \<longrightarrow>
              iteration_description (last (iterations (current_state sm))) \<noteq> None"
    and l: "\<forall>t c. \<exists>r. llm_code E t c = Inr r"
  shows "\<exists>resp. fst (implement_changes E prev step sm tr) = Inr resp"
proof -
  let ?fc = "case get_file_by_path sm file_name of
               None \<Rightarrow> [] | Some current_file \<Rightarrow> content current_file"
  let ?h = "handle_previous_response prev file_name ?fc sm tr"
  have "\<exists>x. extract_iteration_data (iterations (current_state sm)) (Some t) = Inr x"
    using t d by (cases "iterations (current_state sm) = []") (auto simp: extract_iteration_data_def)
  then obtain uf uf_qa instr where
    x: "extract_iteration_data (iterations (current_state sm)) (Some t) = Inr (uf, uf_qa, instr)"
    by (metis prod_cases3)
  have "snd (fst ?h) = None \<or> (\<exists>n fb nc ac. prev = Some (CodeReviewFeedback n fb nc ac))"
    using handle_previous_response_feedback [of prev file_name ?fc sm tr] by blast
  from prepare_conversation_returns [OF this] obtain convo where
    c: "prepare_conversation prev file_name ?fc instr uf uf_qa (snd (fst ?h)) = Inr convo"
    by blast
  from l obtain r where r: "llm_code E (snd (snd ?h)) convo = Inr r" by blast
  show ?thesis
    using p t x c r by (simp add: implement_changes_def Let_def case_prod_beta)
qed

lemma task_sm_simps:
  "current_task (current_state task_sm) = Some \<lparr>instructions = Some ''Add a route''\<rparr>"
  "iterations (current_state task_sm) = []"
  by (simp_all add: task_sm_def demo_state_def)

lemma demo_env_codes: "\<forall>t c. \<exists>r. llm_code demo_env t c = Inr r"
  by (simp add: demo_env_def)

text \<open>
  Claim C2. The agent is invoked on a file when the previous response is not the request
  to describe files. Whenever the invocation returns a response, that response is a
  code-review request whose attempt counter is the counter of the previous response plus
  one if the previous response carries the rework tag, and 1 otherwise (no previous
  response, or one of any other tag). The invocation does return a response when the step
  names a path, the current task has instructions, the latest iteration (if there is one)
  has a description, and the model answers.
\<close>

theorem attempt_counter_follows_previous_response:
  assumes "prev \<noteq> Some DescribeFiles"
  shows "(\<forall>resp. fst (code_monkey_run E prev step sm tr) = Inr resp \<longrightarrow>
            review_attempt resp =
              Some (case prev of Some (CodeReviewFeedback n fb nc ac) \<Rightarrow> n + 1 | _ \<Rightarrow> 1))
       \<and> (save_file_path step \<noteq> None
          \<and> (\<exists>t. current_task (current_state sm) = Some t \<and> instructions t \<noteq> None)
          \<and> (iterations (current_state sm) \<noteq> [] \<longrightarrow>
               iteration_description (last (iterations (current_state sm))) \<noteq> None)
          \<and> (\<forall>t c. \<exists>r. llm_code E t c = Inr r)
          \<longrightarrow> (\<exists>resp. fst (code_monkey_run E prev step sm tr) = Inr resp))"
proof -
  have run: "code_monkey_run E prev step sm tr = implement_changes E prev step sm tr"
    using assms by (simp add: code_monkey_run_def split: option.splits AgentResponse.splits)
  have 1: "\<forall>resp. fst (implement_changes E prev step sm tr) = Inr resp \<longrightarrow>
            review_attempt resp =
              Some (case prev of Some (CodeReviewFeedback n fb nc ac) \<Rightarrow> n + 1 | _ \<Rightarrow> 1)"
    using implement_changes_attempt [of E prev step sm tr]
    by (simp add: handle_previous_response_attempt)
  have 2: "save_file_path step \<noteq> None
          \<and> (\<exists>t. current_task (current_state sm) = Some t \<and> instructions t \<noteq> None)
          \<and> (iterations (current_state sm) \<noteq> [] \<longrightarrow>
               iteration_description (last (iterations (current_state sm))) \<noteq> None)
          \<and> (\<forall>t c. \<exists>r. llm_code E t c = Inr r)
          \<longrightarrow> (\<exists>resp. fst (implement_changes E prev step sm tr) = Inr resp)"
    using implement_changes_returns [of step _ sm _ _ E prev tr] by auto
  from 1 2 show ?thesis unfolding run by blast
qed

theorem attempt_counter_follows_previous_response_witness:
  "None \<noteq> Some DescribeFiles
   \<and> Some (CodeReviewFeedback 1 ''Use a constant'' ''x = 2'' ''x = 1'') \<noteq> Some DescribeFiles
   \<and> Some (CodeReviewFeedback 2 ''Name it'' ''X = 2'' ''x = 1'') \<noteq> Some DescribeFiles
   \<and> Some (OtherResponse ''done'') \<noteq> Some DescribeFiles
   \<and> fst (code_monkey_run demo_env None util_step task_sm []) =
       Inr (CodeReview ''util.py'' ''Add a route'' ''x = 1'' ''print(1)'' 1)
   \<and> fst (code_monkey_run demo_env
            (Some (CodeReviewFeedback 1 ''Use a constant'' ''x = 2'' ''x = 1'')) util_step task_sm []) =
       Inr (CodeReview ''util.py'' ''Add a route'' ''x = 1'' ''print(1)'' 2)
   \<and> fst (code_monkey_run demo_env
            (Some (CodeReviewFeedback 2 ''Name it'' ''X = 2'' ''x = 1'')) util_step task_sm []) =
       Inr (CodeReview ''util.py'' ''Add a route'' ''x = 1'' ''print(1)'' 3)
   \<and> fst (code_monkey_run demo_env (Some (OtherResponse ''done'')) util_step task_sm []) =
       Inr (CodeReview ''util.py'' ''Add a route'' ''x = 1'' ''print(1)'' 1)"
proof -
  have r: "fst (code_monkey_run demo_env prev util_step task_sm []) =
             Inr (CodeReview ''util.py'' ''Add a route'' ''x = 1'' ''print(1)''
                    (case prev of Some (CodeReviewFeedback n fb nc ac) \<Rightarrow> n + 1 | _ \<Rightarrow> 1))"
    if "prev \<noteq> Some DescribeFiles" for prev
  proof -
    from attempt_counter_follows_previous_response [OF that, of demo_env util_step task_sm "[]"]
    obtain resp where
      a: "fst (code_monkey_run demo_env prev util_step task_sm []) = Inr resp"
      and b: "review_attempt resp =
                Some (case prev of Some (CodeReviewFeedback n fb nc ac) \<Rightarrow> n + 1 | _ \<Rightarrow> 1)"
      using demo_env_codes by (auto simp: task_sm_simps util_step_def)
    have "\<exists>n. fst (code_monkey_run demo_env prev util_step task_sm []) =
             Inr (CodeReview ''util.py'' ''Add a route'' ''x = 1'' ''print(1)'' n)"
      using that
      by (auto simp: code_monkey_run_def implement_changes_def Let_def case_prod_beta
                     util_step_def task_sm_simps extract_iteration_data_def
                     prepare_conversation_def handle_previous_response_def demo_env_def
                     get_file_by_path_def task_sm_def demo_state_def util_py_def
               split: option.splits AgentResponse.splits)
    with a b show ?thesis by auto
  qed
  show ?thesis
    using r [of None] r [of "Some (CodeReviewFeedback 1 ''Use a constant'' ''x = 2'' ''x = 1'')"]
      r [of "Some (CodeReviewFeedback 2 ''Name it'' ''X = 2'' ''x = 1'')"]
      r [of "Some (OtherResponse ''done'')"]
    by simp
qed


section \<open>Claims about the session\<close>

lemma rollback_trace: "snd (rollback sm tr) = tr @ [Rollback]"
  by (simp add: rollback_def)

lemma rollback_state: "fst (rollback sm tr) = sm\<lparr>next_state := current_state sm\<rparr>"
  by (simp add: rollback_def)












end
